theory Spec2Isabelle
  imports Main "HOL-Library.Word" "HOL-Library.AList"
begin

section \<open>Errors\<close>

text \<open>
  The error values of the package (\<open>ErrSecretNotFound\<close>, \<open>ErrHmacValidationFailed\<close>,
  \<open>ErrTimeout\<close>) and those of its collaborators. \<open>AwsError code\<close> is an
  \<open>awserr.Error\<close> with its \<open>Code()\<close>; the conditional write of the store fails with
  code \<open>ConditionalCheckFailedException\<close>, the key service refuses with
  \<open>AccessDeniedException\<close>. \<open>CorruptInputError\<close> is the error of
  \<open>base64.StdEncoding.DecodeString\<close> (its byte offset is left out), \<open>ErrSyntax\<close> and
  \<open>ErrRange\<close> are the two causes of a \<open>strconv.NumError\<close>. \<open>RuntimePanic\<close> is not a
  returned error: it marks a slice expression out of range, which ends the call.
\<close>

datatype error =
    ErrSecretNotFound
  | ErrHmacValidationFailed
  | ErrTimeout
  | AwsError string
  | CorruptInputError
  | ErrSyntax
  | ErrRange
  | OtherError string
  | RuntimePanic

type_synonym bytes = string
type_synonym int64 = "64 word"

section \<open>Go strings and strconv\<close>

text \<open>Go compares strings byte by byte; so does the store on a string sort key.\<close>

fun str_less :: "string \<Rightarrow> string \<Rightarrow> bool" where
  "str_less [] [] = False"
| "str_less [] (y # ys) = True"
| "str_less (x # xs) [] = False"
| "str_less (x # xs) (y # ys) =
     ((of_char x :: nat) < of_char y \<or> (x = y \<and> str_less xs ys))"

definition is_digit :: "char \<Rightarrow> bool" where
  "is_digit c = (48 \<le> (of_char c :: nat) \<and> (of_char c :: nat) \<le> 57)"

definition digit_char :: "nat \<Rightarrow> char" where
  "digit_char d = char_of (48 + d)"

definition nat_of_digits :: "string \<Rightarrow> nat" where
  "nat_of_digits ds = foldl (\<lambda>a c. a * 10 + ((of_char c :: nat) - 48)) 0 ds"

fun digits_of_nat :: "nat \<Rightarrow> string" where
  "digits_of_nat n =
     (if n < 10 then [digit_char n] else digits_of_nat (n div 10) @ [digit_char (n mod 10)])"

declare digits_of_nat.simps [simp del]

text \<open>
  \<open>strconv.ParseInt(s, 10, 64)\<close>: an optional sign, then one or more decimal digits.
  A syntax error gives the value 0; a value out of range gives the nearest bound of
  int64, each together with the error.
\<close>

definition ParseInt :: "string \<Rightarrow> int \<times> error option" where
  "ParseInt s =
     (let (neg, ds) =
            (case s of
               [] \<Rightarrow> (False, s)
             | c # r \<Rightarrow> if c = CHR ''-'' then (True, r)
                        else if c = CHR ''+'' then (False, r) else (False, s))
      in if ds = [] \<or> \<not> list_all is_digit ds then (0, Some ErrSyntax)
         else
           let n = int (nat_of_digits ds)
           in if neg then (if n > 2 ^ 63 then (- (2 ^ 63), Some ErrRange) else (- n, None))
              else (if n \<ge> 2 ^ 63 then (2 ^ 63 - 1, Some ErrRange) else (n, None)))"

text \<open>\<open>strconv.Atoi\<close> and \<open>strconv.Itoa\<close> on a 64-bit \<open>int\<close>.\<close>

definition Atoi :: "string \<Rightarrow> int \<times> error option" where
  "Atoi s = ParseInt s"

definition FormatInt :: "int \<Rightarrow> string" where
  "FormatInt i = (if i < 0 then CHR ''-'' # digits_of_nat (nat (- i)) else digits_of_nat (nat i))"

definition Itoa :: "int \<Rightarrow> string" where
  "Itoa i = FormatInt i"

section \<open>encoding/base64\<close>

text \<open>
  \<open>base64.StdEncoding\<close>: the alphabet of RFC 4648 with \<open>=\<close> padding. The decoder
  skips carriage returns and line feeds and, not being in strict mode, does not look at
  the unused low bits of the last character before the padding.
\<close>

definition b64_char :: "nat \<Rightarrow> char" where
  "b64_char n =
     (if n < 26 then char_of (65 + n)
      else if n < 52 then char_of (71 + n)
      else if n < 62 then char_of (n - 4)
      else if n = 62 then CHR ''+'' else CHR ''/'')"

definition b64_index :: "char \<Rightarrow> nat option" where
  "b64_index c =
     (let k = (of_char c :: nat)
      in if 65 \<le> k \<and> k \<le> 90 then Some (k - 65)
         else if 97 \<le> k \<and> k \<le> 122 then Some (k - 71)
         else if 48 \<le> k \<and> k \<le> 57 then Some (k + 4)
         else if k = 43 then Some 62
         else if k = 47 then Some 63 else None)"

text \<open>Three bytes make four groups of six bits, and back.\<close>

definition sextets :: "nat \<Rightarrow> nat \<Rightarrow> nat \<Rightarrow> nat \<times> nat \<times> nat \<times> nat" where
  "sextets x y z = (x div 4, (x mod 4) * 16 + y div 16, (y mod 16) * 4 + z div 64, z mod 64)"

definition octet1 :: "nat \<Rightarrow> nat \<Rightarrow> char" where
  "octet1 p q = char_of (p * 4 + q div 16)"

definition octet2 :: "nat \<Rightarrow> nat \<Rightarrow> char" where
  "octet2 q r = char_of ((q mod 16) * 16 + r div 4)"

definition octet3 :: "nat \<Rightarrow> nat \<Rightarrow> char" where
  "octet3 r t = char_of ((r mod 4) * 64 + t)"

fun EncodeToString :: "bytes \<Rightarrow> string" where
  "EncodeToString [] = []"
| "EncodeToString [a] =
     (case sextets (of_char a) 0 0 of
        (p, q, r, t) \<Rightarrow> [b64_char p, b64_char q, CHR ''='', CHR ''=''])"
| "EncodeToString [a, b] =
     (case sextets (of_char a) (of_char b) 0 of
        (p, q, r, t) \<Rightarrow> [b64_char p, b64_char q, b64_char r, CHR ''=''])"
| "EncodeToString (a # b # c # rest) =
     (case sextets (of_char a) (of_char b) (of_char c) of
        (p, q, r, t) \<Rightarrow> [b64_char p, b64_char q, b64_char r, b64_char t] @ EncodeToString rest)"

fun decode_quanta :: "string \<Rightarrow> bytes option" where
  "decode_quanta [] = Some []"
| "decode_quanta (w # x # y # z # rest) =
     (if rest = [] \<and> z = CHR ''='' then
        (if y = CHR ''='' then
           (case (b64_index w, b64_index x) of
              (Some p, Some q) \<Rightarrow> Some [octet1 p q]
            | _ \<Rightarrow> None)
         else
           (case (b64_index w, b64_index x, b64_index y) of
              (Some p, Some q, Some r) \<Rightarrow> Some [octet1 p q, octet2 q r]
            | _ \<Rightarrow> None))
      else
        (case (b64_index w, b64_index x, b64_index y, b64_index z) of
           (Some p, Some q, Some r, Some t) \<Rightarrow>
             (case decode_quanta rest of
                None \<Rightarrow> None
              | Some bs \<Rightarrow> Some (octet1 p q # octet2 q r # octet3 r t # bs))
         | _ \<Rightarrow> None))"
| "decode_quanta _ = None"

definition DecodeString :: "string \<Rightarrow> error + bytes" where
  "DecodeString s =
     (case decode_quanta (filter (\<lambda>c. c \<noteq> CHR 0x0D \<and> c \<noteq> CHR 0x0A) s) of
        None \<Rightarrow> Inl CorruptInputError
      | Some bs \<Rightarrow> Inr bs)"

section \<open>Sorting\<close>

text \<open>
  \<open>sort.Sort\<close> with the \<open>Less\<close> of the slice type. Go's sort is not stable; the
  insertion sort below is one sort that meets its contract (a permutation in which no
  element is \<open>Less\<close> than an earlier one).
\<close>

fun insort_by :: "('a \<Rightarrow> 'a \<Rightarrow> bool) \<Rightarrow> 'a \<Rightarrow> 'a list \<Rightarrow> 'a list" where
  "insort_by lt x [] = [x]"
| "insort_by lt x (y # ys) = (if lt y x then y # insort_by lt x ys else x # y # ys)"

definition sort_Sort :: "('a \<Rightarrow> 'a \<Rightarrow> bool) \<Rightarrow> 'a list \<Rightarrow> 'a list" where
  "sort_Sort lt xs = foldr (insort_by lt) xs []"

section \<open>Data model\<close>

record Credential =
  Name :: string
  Version :: string
  Key :: string
  Contents :: string
  Hmac :: string
  CreatedAt :: int64

record DecryptedCredential =
  Credential :: Credential
  Secret :: string

record DataKey =
  CiphertextBlob :: bytes
  Plaintext :: bytes

definition DefaultKmsKey :: string where
  "DefaultKmsKey = ''alias/credstash''"

definition ByVersion_Less :: "Credential \<Rightarrow> Credential \<Rightarrow> bool" where
  "ByVersion_Less a b = (fst (Atoi (Version a)) < fst (Atoi (Version b)))"

definition ByName_Less :: "Credential \<Rightarrow> Credential \<Rightarrow> bool" where
  "ByName_Less a b = str_less (Name a) (Name b)"

section \<open>The backing store\<close>

text \<open>
  The table of the external key-value store, as \<open>dynamodbiface.DynamoDBAPI\<close> shows it to
  the package: an item is a map from attribute names to values of type S (string) or
  N (number, sent as text); the table is the list of its items, with partition key
  \<open>name\<close> and sort key \<open>version\<close>, both strings (\<open>Setup\<close> creates it so). The store
  orders the items of one partition by the bytes of the sort key. The calls are taken to
  reach the service and to return all matching items in one page, so the only error of
  the store in this model is the failed condition of a write.
\<close>

datatype AttributeValue = S string | N string

type_synonym item = "(string \<times> AttributeValue) list"
type_synonym table = "item list"

fun StringValue_S :: "AttributeValue \<Rightarrow> string" where
  "StringValue_S (S s) = s"
| "StringValue_S (N n) = []"

fun StringValue_N :: "AttributeValue \<Rightarrow> string" where
  "StringValue_N (N n) = n"
| "StringValue_N (S s) = []"

definition key_of :: "item \<Rightarrow> AttributeValue option \<times> AttributeValue option" where
  "key_of it = (map_of it ''name'', map_of it ''version'')"

definition range_key :: "item \<Rightarrow> string" where
  "range_key it = (case map_of it ''version'' of Some (S v) \<Rightarrow> v | _ \<Rightarrow> [])"

text \<open>The key schema of the table: both key attributes are present and are strings.\<close>

definition has_key_schema :: "item \<Rightarrow> bool" where
  "has_key_schema it =
     (case key_of it of (Some (S n), Some (S v)) \<Rightarrow> True | _ \<Rightarrow> False)"

definition project :: "string list option \<Rightarrow> item \<Rightarrow> item" where
  "project attrs it =
     (case attrs of None \<Rightarrow> it | Some names \<Rightarrow> filter (\<lambda>kv. fst kv \<in> set names) it)"

definition key_condition :: "string \<Rightarrow> string option \<Rightarrow> item \<Rightarrow> bool" where
  "key_condition name version it =
     (map_of it ''name'' = Some (S name) \<and>
      (case version of None \<Rightarrow> True | Some v \<Rightarrow> map_of it ''version'' = Some (S v)))"

text \<open>
  \<open>Query\<close> with \<open>ScanIndexForward = false\<close>, as every query of the package asks: the
  items that meet the key condition, highest sort key first, cut to \<open>Limit\<close>, projected.
\<close>

definition Query ::
  "table \<Rightarrow> string \<Rightarrow> string option \<Rightarrow> nat option \<Rightarrow> string list option \<Rightarrow> error + item list"
where
  "Query tbl name version limit attrs =
     (let found = sort_Sort (\<lambda>a b. str_less (range_key b) (range_key a))
                    (filter (key_condition name version) tbl);
          page = (case limit of None \<Rightarrow> found | Some n \<Rightarrow> take n found)
      in Inr (map (project attrs) page))"

definition Scan :: "table \<Rightarrow> string list option \<Rightarrow> error + item list" where
  "Scan tbl attrs = Inr (map (project attrs) tbl)"

text \<open>
  \<open>PutItem\<close> under the condition \<open>attribute_not_exists(#N)\<close> with \<open>#N = name\<close>: the
  condition is read on the stored item that has the key of the new one.
\<close>

definition PutItem :: "table \<Rightarrow> item \<Rightarrow> error + table" where
  "PutItem tbl data =
     (case find (\<lambda>old. key_of old = key_of data) tbl of
        None \<Rightarrow> Inr (tbl @ [data])
      | Some old \<Rightarrow>
          if map_of old ''name'' \<noteq> None
          then Inl (AwsError ''ConditionalCheckFailedException'')
          else Inr (map (\<lambda>i. if key_of i = key_of data then data else i) tbl))"

definition DeleteItem :: "table \<Rightarrow> string \<Rightarrow> string \<Rightarrow> error + table" where
  "DeleteItem tbl name version =
     Inr (filter (\<lambda>it. key_of it \<noteq> (Some (S name), Some (S version))) tbl)"

section \<open>The attribute codec\<close>

text \<open>
  Modelled from the spec: \<open>Encode\<close> and \<open>Decode\<close>, which this package defines outside the
  files at hand. The attribute names are the \<open>ds\<close> tags of \<open>Credential\<close>; section 3 and
  section 6 of the specification give the persisted record: five string attributes and
  \<open>created_at\<close>, an integer that older records lack and that then reads as 0.
\<close>

definition Encode :: "Credential \<Rightarrow> error + item" where
  "Encode c =
     Inr [(''name'', S (Name c)), (''version'', S (Version c)), (''key'', S (Key c)),
          (''contents'', S (Contents c)), (''hmac'', S (Hmac c)),
          (''created_at'', N (FormatInt (sint (CreatedAt c))))]"

definition decode_string :: "item \<Rightarrow> string \<Rightarrow> string" where
  "decode_string it tag = (case map_of it tag of None \<Rightarrow> [] | Some av \<Rightarrow> StringValue_S av)"

definition Decode :: "item \<Rightarrow> error + Credential" where
  "Decode it =
     (case (case map_of it ''created_at'' of
              None \<Rightarrow> (0, None)
            | Some av \<Rightarrow> ParseInt (StringValue_N av)) of
        (n, Some err) \<Rightarrow> Inl err
      | (n, None) \<Rightarrow>
          Inr \<lparr>Name = decode_string it ''name'', Version = decode_string it ''version'',
               Key = decode_string it ''key'', Contents = decode_string it ''contents'',
               Hmac = decode_string it ''hmac'', CreatedAt = word_of_int n\<rparr>)"

section \<open>Key service and ciphers\<close>

text \<open>
  The key-management client (\<open>GenerateDataKey\<close>, \<open>DecryptDataKey\<close>), the cipher
  (\<open>Encrypt\<close>, \<open>Decrypt\<close>), the tag (\<open>ComputeHmac256\<close>) and the clock
  (\<open>time.Now().Unix()\<close>) are collaborators of the functions below; they are parameters
  of the model, collected in one record.
\<close>

record env =
  GenerateDataKey :: "string \<Rightarrow> nat \<Rightarrow> error + DataKey"
  DecryptDataKey :: "bytes \<Rightarrow> error + DataKey"
  Encrypt :: "bytes \<Rightarrow> bytes \<Rightarrow> error + bytes"
  Decrypt :: "bytes \<Rightarrow> bytes \<Rightarrow> error + bytes"
  ComputeHmac256 :: "bytes \<Rightarrow> bytes \<Rightarrow> string"
  Now_Unix :: int64

text \<open>
  Modelled from the spec: what the key service and the cipher, which are not in the files
  at hand, owe their callers. Section 4.1: unwrapping a wrapped data key gives back the
  plaintext key it was generated with. Section 4.2: decryption is the inverse of
  encryption under the same key.
\<close>

definition unwraps :: "env \<Rightarrow> bool" where
  "unwraps E =
     (\<forall>kmsKey n dk. GenerateDataKey E kmsKey n = Inr dk \<longrightarrow>
        (\<exists>dk'. DecryptDataKey E (CiphertextBlob dk) = Inr dk' \<and> Plaintext dk' = Plaintext dk))"

definition inverts :: "env \<Rightarrow> bool" where
  "inverts E = (\<forall>k m c. Encrypt E k m = Inr c \<longrightarrow> Decrypt E k c = Inr m)"

section \<open>The credential store\<close>

definition decryptCredential :: "env \<Rightarrow> Credential \<Rightarrow> error + DecryptedCredential" where
  "decryptCredential E cred =
     (case DecodeString (Key cred) of
        Inl err \<Rightarrow> Inl err
      | Inr wrappedKey \<Rightarrow>
     (case DecryptDataKey E wrappedKey of
        Inl err \<Rightarrow> Inl err
      | Inr dk \<Rightarrow>
     if length (Plaintext dk) < 32 then Inl RuntimePanic
     else
       let dataKey = take 32 (Plaintext dk);
           hmacKey = drop 32 (Plaintext dk)
       in
     (case DecodeString (Contents cred) of
        Inl err \<Rightarrow> Inl err
      | Inr contents \<Rightarrow>
          let hexhmac = ComputeHmac256 E contents hmacKey
          in if hexhmac \<noteq> Hmac cred then Inl ErrHmacValidationFailed
             else
               (case Decrypt E dataKey contents of
                  Inl err \<Rightarrow> Inl err
                | Inr secret \<Rightarrow> Inr \<lparr>Credential = cred, Secret = secret\<rparr>))))"

definition GetSecret :: "env \<Rightarrow> table \<Rightarrow> string \<Rightarrow> string \<Rightarrow> error + DecryptedCredential" where
  "GetSecret E tbl name version =
     (case Query tbl name (if length version > 0 then Some version else None) (Some 1) None of
        Inl err \<Rightarrow> Inl err
      | Inr items \<Rightarrow>
          (case items of
             [] \<Rightarrow> Inl ErrSecretNotFound
           | item0 # _ \<Rightarrow>
               (case Decode item0 of
                  Inl err \<Rightarrow> Inl err
                | Inr cred \<Rightarrow> decryptCredential E cred)))"

definition GetHighestVersion :: "table \<Rightarrow> string \<Rightarrow> error + string" where
  "GetHighestVersion tbl name =
     (case Query tbl name None (Some 1) (Some [''version'']) of
        Inl err \<Rightarrow> Inl err
      | Inr items \<Rightarrow>
          (case items of
             [] \<Rightarrow> Inl ErrSecretNotFound
           | item0 # _ \<Rightarrow>
               (case map_of item0 ''version'' of
                  None \<Rightarrow> Inl ErrSecretNotFound
                | Some v \<Rightarrow> Inr (StringValue_S v))))"

fun decodeCredential :: "item list \<Rightarrow> error + Credential list" where
  "decodeCredential [] = Inr []"
| "decodeCredential (it # items) =
     (case Decode it of
        Inl err \<Rightarrow> Inl err
      | Inr cred \<Rightarrow>
          (case decodeCredential items of
             Inl err \<Rightarrow> Inl err
           | Inr results \<Rightarrow> Inr (cred # results)))"

text \<open>
  \<open>filterLatest\<close>: the map \<open>names\<close> is an association list that keeps one entry per
  name; the loop over the sorted slice leaves under each name the last record of that
  name. A Go map is read back in no fixed order, and the result is sorted once more.
\<close>

definition filterLatest :: "Credential list \<Rightarrow> error + Credential list" where
  "filterLatest creds =
     (let sorted = sort_Sort ByVersion_Less creds;
          names = foldl (\<lambda>m cred. AList.update (Name cred) cred m) [] sorted;
          results = map snd names
      in Inr (sort_Sort ByVersion_Less results))"

definition ListSecrets :: "table \<Rightarrow> bool \<Rightarrow> error + Credential list" where
  "ListSecrets tbl allVersions =
     (case Scan tbl (Some [''name'', ''version'', ''created_at'']) of
        Inl err \<Rightarrow> Inl err
      | Inr items \<Rightarrow>
     (case decodeCredential items of
        Inl err \<Rightarrow> Inl err
      | Inr creds \<Rightarrow>
     (case (if \<not> allVersions then filterLatest creds else Inr creds) of
        Inl err \<Rightarrow> Inl err
      | Inr creds' \<Rightarrow> Inr (sort_Sort ByName_Less creds'))))"

text \<open>
  The loop of \<open>GetAllSecrets\<close>. An entry of the result is a pointer: \<open>None\<close> is nil.
  An error of \<open>decryptCredential\<close> that is an \<open>awserr.Error\<close> with code
  \<open>AccessDeniedException\<close> skips the record; after any other error the loop goes on to
  the \<open>append\<close> with the nil pointer it was given.
\<close>

fun GetAllSecrets_loop ::
  "env \<Rightarrow> Credential list \<Rightarrow> DecryptedCredential option list
     \<Rightarrow> error + DecryptedCredential option list"
where
  "GetAllSecrets_loop E [] results = Inr results"
| "GetAllSecrets_loop E (cred # creds) results =
     (case decryptCredential E cred of
        Inl err \<Rightarrow>
          if err = RuntimePanic then Inl RuntimePanic
          else if err = AwsError ''AccessDeniedException''
          then GetAllSecrets_loop E creds results
          else GetAllSecrets_loop E creds (results @ [None])
      | Inr dcred \<Rightarrow> GetAllSecrets_loop E creds (results @ [Some dcred]))"

definition GetAllSecrets ::
  "env \<Rightarrow> table \<Rightarrow> bool \<Rightarrow> error + DecryptedCredential option list"
where
  "GetAllSecrets E tbl allVersions =
     (case Scan tbl (Some [''name'', ''version'', ''key'', ''contents'', ''hmac'',
                           ''created_at'']) of
        Inl err \<Rightarrow> Inl err
      | Inr items \<Rightarrow>
     (case decodeCredential items of
        Inl err \<Rightarrow> Inl err
      | Inr creds \<Rightarrow>
     (case (if \<not> allVersions then filterLatest creds else Inr creds) of
        Inl err \<Rightarrow> Inl err
      | Inr creds' \<Rightarrow> GetAllSecrets_loop E (sort_Sort ByName_Less creds') [])))"

text \<open>
  \<open>PutSecret\<close> and \<open>DeleteSecret\<close> change the table: they return the error (\<open>None\<close> is
  nil) and the table after the call.
\<close>

definition PutSecret ::
  "env \<Rightarrow> table \<Rightarrow> string \<Rightarrow> string \<Rightarrow> string \<Rightarrow> string \<Rightarrow> error option \<times> table"
where
  "PutSecret E tbl alias name secret version =
     (let kmsKey = (if alias \<noteq> [] then alias else DefaultKmsKey);
          version' = (if version = [] then ''1'' else version)
      in
     (case GenerateDataKey E kmsKey 64 of
        Inl err \<Rightarrow> (Some err, tbl)
      | Inr dk \<Rightarrow>
     if length (Plaintext dk) < 32 then (Some RuntimePanic, tbl)
     else
       let dataKey = take 32 (Plaintext dk);
           hmacKey = drop 32 (Plaintext dk);
           wrappedKey = CiphertextBlob dk
       in
     (case Encrypt E dataKey secret of
        Inl err \<Rightarrow> (Some err, tbl)
      | Inr ctext \<Rightarrow>
          let b64hmac = ComputeHmac256 E ctext hmacKey;
              b64ctext = EncodeToString ctext;
              cred = \<lparr>Name = name, Version = version', Key = EncodeToString wrappedKey,
                      Contents = b64ctext, Hmac = b64hmac, CreatedAt = Now_Unix E\<rparr>
          in
     (case Encode cred of
        Inl err \<Rightarrow> (Some err, tbl)
      | Inr data \<Rightarrow>
     (case PutItem tbl data of
        Inl err \<Rightarrow> (Some err, tbl)
      | Inr tbl' \<Rightarrow> (None, tbl'))))))"

fun DeleteSecret_loop :: "table \<Rightarrow> item list \<Rightarrow> error option \<times> table" where
  "DeleteSecret_loop tbl [] = (None, tbl)"
| "DeleteSecret_loop tbl (it # items) =
     (case Decode it of
        Inl err \<Rightarrow> (Some err, tbl)
      | Inr cred \<Rightarrow>
          (case DeleteItem tbl (Name cred) (Version cred) of
             Inl err \<Rightarrow> (Some err, tbl)
           | Inr tbl' \<Rightarrow> DeleteSecret_loop tbl' items))"

definition DeleteSecret :: "table \<Rightarrow> string \<Rightarrow> error option \<times> table" where
  "DeleteSecret tbl name =
     (case Query tbl name None None None of
        Inl err \<Rightarrow> (Some err, tbl)
      | Inr items \<Rightarrow> DeleteSecret_loop tbl items)"

text \<open>
  \<open>ResolveVersion\<close>: \<open>version\<close> is a Go \<open>int\<close>, here of 64 bits, so that
  \<open>version++\<close> wraps around.
\<close>

definition ResolveVersion :: "table \<Rightarrow> string \<Rightarrow> int64 \<Rightarrow> error + string" where
  "ResolveVersion tbl name version =
     (if version \<noteq> 0 then Inr (Itoa (sint version))
      else
        (case GetHighestVersion tbl name of
           Inl err \<Rightarrow> if err = ErrSecretNotFound then Inr ''1'' else Inl err
         | Inr ver \<Rightarrow>
             (case Atoi ver of
                (n, Some err) \<Rightarrow> Inl err
              | (n, None) \<Rightarrow> Inr (Itoa (sint ((word_of_int n :: int64) + 1))))))"

section \<open>Altering a stored record\<close>

text \<open>
  What a writer to the table other than this package can do to a stored record: replace
  one of its string attributes. \<open>tamper\<close> does so in the record with the given name and
  version.
\<close>

definition tamper :: "table \<Rightarrow> string \<Rightarrow> string \<Rightarrow> string \<Rightarrow> string \<Rightarrow> table" where
  "tamper tbl name version attr val =
     map (\<lambda>it. if key_of it = (Some (S name), Some (S version))
               then AList.update attr (S val) it else it) tbl"

section \<open>A test double for the collaborators\<close>

text \<open>
  To run the model on concrete tables, the collaborators are replaced by simple ones: a
  key service with one data key of 64 bytes, wrapped by reversing it, which refuses the
  wrapped key \<open>denied\<close> and knows no other; a cipher that reverses its input; a tag that
  appends the key to the message; a fixed clock.
\<close>

definition stub_key :: DataKey where
  "stub_key =
     \<lparr>CiphertextBlob = replicate 32 CHR ''h'' @ replicate 32 CHR ''d'',
      Plaintext = replicate 32 CHR ''d'' @ replicate 32 CHR ''h''\<rparr>"

definition stub_env :: env where
  "stub_env =
     \<lparr>GenerateDataKey = (\<lambda>kmsKey n. Inr stub_key),
      DecryptDataKey =
        (\<lambda>w. if w = ''denied'' then Inl (AwsError ''AccessDeniedException'')
             else if w = CiphertextBlob stub_key then Inr stub_key
             else Inl (AwsError ''InvalidCiphertextException'')),
      Encrypt = (\<lambda>k m. Inr (rev m)),
      Decrypt = (\<lambda>k c. Inr (rev c)),
      ComputeHmac256 = (\<lambda>m k. m @ k),
      Now_Unix = 1446336000\<rparr>"

text \<open>The item of a credential, as \<open>Encode\<close> makes it.\<close>

definition encoded :: "Credential \<Rightarrow> item" where
  "encoded c =
     [(''name'', S (Name c)), (''version'', S (Version c)), (''key'', S (Key c)),
      (''contents'', S (Contents c)), (''hmac'', S (Hmac c)),
      (''created_at'', N (FormatInt (sint (CreatedAt c))))]"

text \<open>
  The credential that \<open>PutSecret\<close> assembles with these collaborators for a name, a
  secret and a version, and the item it writes for it.
\<close>

definition stub_cred :: "string \<Rightarrow> string \<Rightarrow> string \<Rightarrow> Credential" where
  "stub_cred name secret version =
     \<lparr>Name = name, Version = version, Key = EncodeToString (CiphertextBlob stub_key),
      Contents = EncodeToString (rev secret), Hmac = rev secret @ replicate 32 CHR ''h'',
      CreatedAt = 1446336000\<rparr>"

definition stub_item :: "string \<Rightarrow> string \<Rightarrow> string \<Rightarrow> item" where
  "stub_item name secret version = encoded (stub_cred name secret version)"

text \<open>
  Three credentials under three names: one as \<open>PutSecret\<close> stores it, one whose stored
  tag was replaced, and one whose wrapped key the key service refuses to unwrap.
\<close>

definition stub_good :: Credential where
  "stub_good = stub_cred ''api'' ''t0k3n'' ''1''"

definition stub_forged :: Credential where
  "stub_forged = (stub_cred ''db'' ''s3cr3t'' ''1'')\<lparr>Hmac := ''forged''\<rparr>"

definition stub_denied :: Credential where
  "stub_denied = (stub_cred ''web'' ''c00k13'' ''1'')\<lparr>Key := EncodeToString ''denied''\<rparr>"

text \<open>A table written by successive calls of \<open>PutSecret\<close> with the given versions.\<close>

definition put_all :: "env \<Rightarrow> table \<Rightarrow> string \<Rightarrow> string list \<Rightarrow> table" where
  "put_all E tbl name versions =
     foldl (\<lambda>t v. snd (PutSecret E t [] name (''secret-'' @ v) v)) tbl versions"

definition versions_1_to_11 :: "string list" where
  "versions_1_to_11 =
     [''1'', ''2'', ''3'', ''4'', ''5''] @ [''6'', ''7'', ''8'', ''9''] @ [''10'', ''11'']"

text \<open>
  The credentials and the table that those calls leave for the name \<open>db\<close> and the
  versions 1 to 11.
\<close>

definition creds_1_to_11 :: "Credential list" where
  "creds_1_to_11 = map (\<lambda>v. stub_cred ''db'' (''secret-'' @ v) v) versions_1_to_11"

definition table_1_to_11 :: table where
  "table_1_to_11 = map encoded creds_1_to_11"

section \<open>Properties of the encodings\<close>

lemma b64_index_char: "n < 64 \<Longrightarrow> b64_index (b64_char n) = Some n"
  by (auto simp: b64_index_def b64_char_def Let_def)

lemma b64_char_plain:
  "n < 64 \<Longrightarrow> b64_char n \<noteq> CHR ''=''"
  "n < 64 \<Longrightarrow> b64_char n \<noteq> CHR 0x0D"
  "n < 64 \<Longrightarrow> b64_char n \<noteq> CHR 0x0A"
  by (auto simp: b64_char_def char_of_eq_iff take_bit_eq_mod)

lemma sextets_eqs:
  assumes "sextets x y z = (p, q, r, t)"
  shows "p = x div 4" and "q = (x mod 4) * 16 + y div 16"
    and "r = (y mod 16) * 4 + z div 64" and "t = z mod 64"
  using assms by (simp_all add: sextets_def)

lemma sextets_bounds:
  assumes "sextets x y z = (p, q, r, t)" and "x < 256" and "y < 256" and "z < 256"
  shows "p < 64" and "q < 64" and "r < 64" and "t < 64"
proof -
  note e = sextets_eqs [OF assms(1)]
  have x4: "x mod 4 \<le> 3" and y16: "y mod 16 \<le> 15" by simp_all
  have yd: "y div 16 \<le> 15" and zd: "z div 64 \<le> 3" using assms(3,4) by simp_all
  show "p < 64" using e(1) assms(2) by simp
  show "q < 64" using e(2) x4 yd by linarith
  show "r < 64" using e(3) y16 zd by linarith
  show "t < 64" using e(4) by simp
qed

lemma octets_sextets:
  assumes "sextets x y z = (p, q, r, t)" and "x < 256" and "y < 256" and "z < 256"
  shows "octet1 p q = char_of x" and "octet2 q r = char_of y" and "octet3 r t = char_of z"
proof -
  note e = sextets_eqs [OF assms(1)]
  have yd: "y div 16 < 16" and zd: "z div 64 < 4" using assms(3,4) by simp_all
  have q16: "q div 16 = x mod 4" and qm: "q mod 16 = y div 16"
    using e(2) yd by simp_all
  have r4: "r div 4 = y mod 16" and rm: "r mod 4 = z div 64"
    using e(3) zd by simp_all
  have "p * 4 + q div 16 = x"
    unfolding q16 e(1) by simp
  then show "octet1 p q = char_of x" by (simp add: octet1_def)
  have "(q mod 16) * 16 + r div 4 = y"
    unfolding qm r4 by simp
  then show "octet2 q r = char_of y" by (simp add: octet2_def)
  have "(r mod 4) * 64 + t = z"
    unfolding rm e(4) by simp
  then show "octet3 r t = char_of z" by (simp add: octet3_def)
qed

lemma decode_quantum:
  assumes s: "sextets (of_char a) (of_char b) (of_char c) = (p, q, r, t)"
  shows "decode_quanta (b64_char p # b64_char q # b64_char r # b64_char t # rest) =
           (case decode_quanta rest of None \<Rightarrow> None | Some bs \<Rightarrow> Some (a # b # c # bs))"
proof -
  have lt: "(of_char a :: nat) < 256" "(of_char b :: nat) < 256" "(of_char c :: nat) < 256"
    by simp_all
  note b = sextets_bounds [OF s lt]
  note o = octets_sextets [OF s lt]
  show ?thesis
    by (simp add: b64_index_char b b64_char_plain o split: option.split)
qed

lemma decode_last2:
  assumes s: "sextets (of_char a) (of_char b) 0 = (p, q, r, t)"
  shows "decode_quanta [b64_char p, b64_char q, b64_char r, CHR ''=''] = Some [a, b]"
proof -
  have lt: "(of_char a :: nat) < 256" "(of_char b :: nat) < 256" "(0 :: nat) < 256"
    by simp_all
  note b = sextets_bounds [OF s lt]
  note o = octets_sextets [OF s lt]
  show ?thesis
    by (simp add: b64_index_char b b64_char_plain o)
qed

lemma decode_last1:
  assumes s: "sextets (of_char a) 0 0 = (p, q, r, t)"
  shows "decode_quanta [b64_char p, b64_char q, CHR ''='', CHR ''=''] = Some [a]"
proof -
  have lt: "(of_char a :: nat) < 256" "(0 :: nat) < 256" "(0 :: nat) < 256"
    by simp_all
  note b = sextets_bounds [OF s lt]
  note o = octets_sextets [OF s lt]
  show ?thesis
    by (simp add: b64_index_char b o)
qed

lemma decode_quanta_EncodeToString: "decode_quanta (EncodeToString bs) = Some bs"
proof (induction bs rule: EncodeToString.induct)
  case 1
  show ?case by simp
next
  case (2 a)
  obtain p q r t where s: "sextets (of_char a) 0 0 = (p, q, r, t)"
    by (metis prod_cases4)
  show ?case using decode_last1 [OF s] by (simp add: s)
next
  case (3 a b)
  obtain p q r t where s: "sextets (of_char a) (of_char b) 0 = (p, q, r, t)"
    by (metis prod_cases4)
  show ?case using decode_last2 [OF s] by (simp add: s)
next
  case (4 a b c rest)
  obtain p q r t where s: "sextets (of_char a) (of_char b) (of_char c) = (p, q, r, t)"
    by (metis prod_cases4)
  have IH: "decode_quanta (EncodeToString rest) = Some rest"
    by (rule 4 [OF s [symmetric] refl refl])
  show ?case using decode_quantum [OF s, of "EncodeToString rest"]
    by (simp add: s IH del: decode_quanta.simps)
qed

lemma EncodeToString_chars:
  "list_all (\<lambda>c. c \<noteq> CHR 0x0D \<and> c \<noteq> CHR 0x0A) (EncodeToString bs)"
proof (induction bs rule: EncodeToString.induct)
  case 1
  then show ?case by simp
next
  case (2 a)
  obtain p q r t where s: "sextets (of_char a) 0 0 = (p, q, r, t)"
    by (metis prod_cases4)
  have lt: "(of_char a :: nat) < 256" "(0 :: nat) < 256" "(0 :: nat) < 256"
    by simp_all
  note b = sextets_bounds [OF s lt]
  show ?case by (simp add: s b64_char_plain b)
next
  case (3 a b)
  obtain p q r t where s: "sextets (of_char a) (of_char b) 0 = (p, q, r, t)"
    by (metis prod_cases4)
  have lt: "(of_char a :: nat) < 256" "(of_char b :: nat) < 256" "(0 :: nat) < 256"
    by simp_all
  note b = sextets_bounds [OF s lt]
  show ?case by (simp add: s b64_char_plain b)
next
  case (4 a b c rest)
  obtain p q r t where s: "sextets (of_char a) (of_char b) (of_char c) = (p, q, r, t)"
    by (metis prod_cases4)
  have lt: "(of_char a :: nat) < 256" "(of_char b :: nat) < 256" "(of_char c :: nat) < 256"
    by simp_all
  note b = sextets_bounds [OF s lt]
  have IH: "list_all (\<lambda>c. c \<noteq> CHR 0x0D \<and> c \<noteq> CHR 0x0A) (EncodeToString rest)"
    by (rule 4 [OF s [symmetric] refl refl])
  show ?case by (simp add: s b64_char_plain b IH)
qed

lemma DecodeString_EncodeToString: "DecodeString (EncodeToString bs) = Inr bs"
proof -
  have "filter (\<lambda>c. c \<noteq> CHR 0x0D \<and> c \<noteq> CHR 0x0A) (EncodeToString bs) = EncodeToString bs"
    using EncodeToString_chars [of bs] by (simp add: filter_id_conv list_all_iff)
  then show ?thesis
    by (simp add: DecodeString_def decode_quanta_EncodeToString)
qed


text \<open>From here on the encoder is opened only on request.\<close>

declare EncodeToString.simps [simp del]

lemma of_char_digit_char: "d < 10 \<Longrightarrow> (of_char (digit_char d) :: nat) = 48 + d"
  by (simp add: digit_char_def)

lemma is_digit_digit_char: "d < 10 \<Longrightarrow> is_digit (digit_char d)"
  by (simp add: is_digit_def of_char_digit_char)

lemma digit_char_not_sign:
  "d < 10 \<Longrightarrow> digit_char d \<noteq> CHR ''-''" "d < 10 \<Longrightarrow> digit_char d \<noteq> CHR ''+''"
  by (auto simp: digit_char_def char_of_eq_iff take_bit_eq_mod)

lemma digits_of_nat_digits: "list_all is_digit (digits_of_nat n)"
proof (induction n rule: digits_of_nat.induct)
  case (1 n)
  show ?case
  proof (cases "n < 10")
    case True
    then show ?thesis by (subst digits_of_nat.simps) (simp add: is_digit_digit_char)
  next
    case False
    then show ?thesis using 1
      by (subst digits_of_nat.simps) (simp add: is_digit_digit_char)
  qed
qed

lemma digits_of_nat_nonempty: "digits_of_nat n \<noteq> []"
  by (subst digits_of_nat.simps) simp

lemma nat_of_digits_snoc:
  "nat_of_digits (ds @ [c]) = nat_of_digits ds * 10 + ((of_char c :: nat) - 48)"
  by (simp add: nat_of_digits_def)

lemma nat_of_digits_of_nat: "nat_of_digits (digits_of_nat n) = n"
proof (induction n rule: digits_of_nat.induct)
  case (1 n)
  show ?case
  proof (cases "n < 10")
    case True
    then show ?thesis
      by (subst digits_of_nat.simps) (simp add: nat_of_digits_def of_char_digit_char)
  next
    case False
    then have "nat_of_digits (digits_of_nat (n div 10)) = n div 10" using 1 by simp
    then show ?thesis using False
      by (subst digits_of_nat.simps) (simp add: nat_of_digits_snoc of_char_digit_char)
  qed
qed

lemma digits_of_nat_no_sign:
  "digits_of_nat n = c # r \<Longrightarrow> c \<noteq> CHR ''-'' \<and> c \<noteq> CHR ''+''"
proof -
  assume a: "digits_of_nat n = c # r"
  have "is_digit c" using digits_of_nat_digits [of n] a by simp
  then show ?thesis by (auto simp: is_digit_def)
qed

lemma ParseInt_FormatInt:
  assumes "- (2 ^ 63) \<le> i" and "i < 2 ^ 63"
  shows "ParseInt (FormatInt i) = (i, None)"
proof (cases "i < 0")
  case True
  have n: "int (nat_of_digits (digits_of_nat (nat (- i)))) = - i"
    using True by (simp add: nat_of_digits_of_nat)
  show ?thesis using True assms(1)
    by (simp add: ParseInt_def FormatInt_def digits_of_nat_nonempty digits_of_nat_digits n)
next
  case False
  obtain c r where cr: "digits_of_nat (nat i) = c # r"
    using digits_of_nat_nonempty [of "nat i"] by (cases "digits_of_nat (nat i)") auto
  have n: "int (nat_of_digits (digits_of_nat (nat i))) = i"
    using False by (simp add: nat_of_digits_of_nat)
  have d: "list_all is_digit (c # r)" using digits_of_nat_digits [of "nat i"] cr by simp
  show ?thesis using False assms(2) digits_of_nat_no_sign [OF cr] n d
    by (simp add: ParseInt_def FormatInt_def cr)
qed

lemma Decode_Encode: "Encode c = Inr it \<Longrightarrow> Decode it = Inr c"
proof -
  assume e: "Encode c = Inr it"
  have r: "- (2 ^ 63) \<le> sint (CreatedAt c)" "sint (CreatedAt c) < 2 ^ 63"
    using sint_ge [of "CreatedAt c"] sint_lt [of "CreatedAt c"] by simp_all
  show ?thesis using e ParseInt_FormatInt [OF r]
    by (auto simp: Encode_def Decode_def decode_string_def)
qed



section \<open>Properties of the test double\<close>

lemma Encode_encoded: "Encode c = Inr (encoded c)"
  by (simp add: Encode_def encoded_def)

lemma Decode_encoded: "Decode (encoded c) = Inr c"
  by (rule Decode_Encode [OF Encode_encoded])

lemma key_of_encoded: "key_of (encoded c) = (Some (S (Name c)), Some (S (Version c)))"
  by (simp add: key_of_def encoded_def)

lemma range_key_encoded: "range_key (encoded c) = Version c"
  by (simp add: range_key_def encoded_def)

lemma key_condition_encoded:
  "key_condition name ver (encoded c) =
     (Name c = name \<and> (case ver of None \<Rightarrow> True | Some v' \<Rightarrow> Version c = v'))"
  by (auto simp: key_condition_def encoded_def split: option.splits)

lemma has_key_schema_encoded: "has_key_schema (encoded c)"
  by (simp add: has_key_schema_def key_of_encoded)

lemma project_all_encoded:
  "project (Some [''name'', ''version'', ''key'', ''contents'', ''hmac'', ''created_at''])
     (encoded c) = encoded c"
  by (simp add: project_def encoded_def)

lemma stub_item_alist:
  "stub_item name secret version =
     [(''name'', S name), (''version'', S version),
      (''key'', S (EncodeToString (CiphertextBlob stub_key))),
      (''contents'', S (EncodeToString (rev secret))),
      (''hmac'', S (rev secret @ replicate 32 CHR ''h'')),
      (''created_at'', N (FormatInt (sint (1446336000 :: int64))))]"
  by (simp add: stub_item_def encoded_def stub_cred_def)

lemma key_of_stub_item: "key_of (stub_item n s v) = (Some (S n), Some (S v))"
  by (simp add: key_of_def stub_item_alist)

lemma range_key_stub_item: "range_key (stub_item n s v) = v"
  by (simp add: range_key_def stub_item_alist)

lemma key_condition_stub_item:
  "key_condition name ver (stub_item n s v) =
     (n = name \<and> (case ver of None \<Rightarrow> True | Some v' \<Rightarrow> v = v'))"
  by (auto simp: key_condition_def stub_item_alist split: option.splits)

lemma has_key_schema_stub_item: "has_key_schema (stub_item n s v)"
  by (simp add: has_key_schema_def key_of_stub_item)

lemma Encode_stub_cred: "Encode (stub_cred n s v) = Inr (stub_item n s v)"
  by (simp add: Encode_def stub_cred_def stub_item_alist)

lemma Decode_stub_item: "Decode (stub_item n s v) = Inr (stub_cred n s v)"
  by (rule Decode_Encode [OF Encode_stub_cred])

lemma stub_key_facts:
  "length (Plaintext stub_key) = 64"
  "take 32 (Plaintext stub_key) = replicate 32 CHR ''d''"
  "drop 32 (Plaintext stub_key) = replicate 32 CHR ''h''"
  by (simp_all add: stub_key_def)

lemma stub_blob_not_denied: "CiphertextBlob stub_key \<noteq> ''denied''"
proof
  assume "CiphertextBlob stub_key = ''denied''"
  then have "length (CiphertextBlob stub_key) = length ''denied''" by (rule arg_cong)
  then show False by (simp add: stub_key_def)
qed

lemma decryptCredential_stub_cred:
  "decryptCredential stub_env (stub_cred n s v) =
     Inr \<lparr>Credential = stub_cred n s v, Secret = s\<rparr>"
  by (simp add: decryptCredential_def stub_cred_def DecodeString_EncodeToString stub_env_def
      stub_key_facts stub_blob_not_denied)

section \<open>Writing a secret\<close>

lemma PutItem_exists:
  assumes "old \<in> set tbl" and "key_of old = key_of data" and "map_of data ''name'' \<noteq> None"
  shows "PutItem tbl data = Inl (AwsError ''ConditionalCheckFailedException'')"
proof -
  obtain o' where f: "find (\<lambda>old. key_of old = key_of data) tbl = Some o'"
    using assms(1,2) by (cases "find (\<lambda>old. key_of old = key_of data) tbl")
      (auto simp: find_None_iff)
  then have "key_of o' = key_of data" by (auto simp: find_Some_iff)
  then have "map_of o' ''name'' \<noteq> None" using assms(3) by (simp add: key_of_def)
  then show ?thesis using f by (simp add: PutItem_def)
qed

lemma PutItem_fresh:
  assumes "PutItem tbl data = Inr tbl'" and "map_of data ''name'' \<noteq> None"
  shows "tbl' = tbl @ [data]" and "\<forall>old\<in>set tbl. key_of old \<noteq> key_of data"
proof -
  have n: "find (\<lambda>old. key_of old = key_of data) tbl = None"
  proof (cases "find (\<lambda>old. key_of old = key_of data) tbl")
    case None
    then show ?thesis .
  next
    case (Some o')
    then have "key_of o' = key_of data" by (auto simp: find_Some_iff)
    then have "map_of o' ''name'' \<noteq> None" using assms(2) by (simp add: key_of_def)
    then show ?thesis using Some assms(1) by (simp add: PutItem_def)
  qed
  then show "tbl' = tbl @ [data]" using assms(1) by (simp add: PutItem_def)
  show "\<forall>old\<in>set tbl. key_of old \<noteq> key_of data"
    using n by (auto simp: find_None_iff)
qed

lemma Encode_key:
  "Encode c = Inr data \<Longrightarrow> key_of data = (Some (S (Name c)), Some (S (Version c)))"
  by (auto simp: Encode_def key_of_def)

lemma Encode_name: "Encode c = Inr data \<Longrightarrow> map_of data ''name'' \<noteq> None"
  by (auto simp: Encode_def)

text \<open>The steps of \<open>PutSecret\<close> before the write, and the write.\<close>

lemma PutSecret_steps:
  assumes "GenerateDataKey E (if alias \<noteq> [] then alias else DefaultKmsKey) 64 = Inr dk"
    and "32 \<le> length (Plaintext dk)"
    and "Encrypt E (take 32 (Plaintext dk)) secret = Inr ctext"
    and "Encode \<lparr>Name = name, Version = (if version = [] then ''1'' else version),
                  Key = EncodeToString (CiphertextBlob dk), Contents = EncodeToString ctext,
                  Hmac = ComputeHmac256 E ctext (drop 32 (Plaintext dk)),
                  CreatedAt = Now_Unix E\<rparr> = Inr data"
  shows "PutSecret E tbl alias name secret version =
           (case PutItem tbl data of Inl err \<Rightarrow> (Some err, tbl) | Inr tbl' \<Rightarrow> (None, tbl'))"
  using assms by (simp add: PutSecret_def Let_def)

lemma PutSecret_success:
  assumes "PutSecret E tbl alias name secret version = (None, tbl')"
  obtains dk ctext data where
    "GenerateDataKey E (if alias \<noteq> [] then alias else DefaultKmsKey) 64 = Inr dk"
    and "32 \<le> length (Plaintext dk)"
    and "Encrypt E (take 32 (Plaintext dk)) secret = Inr ctext"
    and "Encode \<lparr>Name = name, Version = (if version = [] then ''1'' else version),
                  Key = EncodeToString (CiphertextBlob dk), Contents = EncodeToString ctext,
                  Hmac = ComputeHmac256 E ctext (drop 32 (Plaintext dk)),
                  CreatedAt = Now_Unix E\<rparr> = Inr data"
    and "PutItem tbl data = Inr tbl'"
  using assms
  by (auto simp: PutSecret_def Let_def split: sum.splits if_splits)

lemma PutSecret_failure_keeps_table:
  "PutSecret E tbl alias name secret version = (Some err, tbl') \<Longrightarrow> tbl' = tbl"
  by (auto simp: PutSecret_def Let_def split: sum.splits if_splits)

lemma PutSecret_existing:
  assumes "old \<in> set tbl"
    and "key_of old = (Some (S name), Some (S (if version = [] then ''1'' else version)))"
  shows "\<exists>err. PutSecret E tbl alias name secret version = (Some err, tbl)"
proof (cases "PutSecret E tbl alias name secret version")
  case (Pair r tbl')
  show ?thesis
  proof (cases r)
    case None
    with Pair have p: "PutSecret E tbl alias name secret version = (None, tbl')" by simp
    from p obtain dk ctext data where
      "GenerateDataKey E (if alias \<noteq> [] then alias else DefaultKmsKey) 64 = Inr dk"
      and "32 \<le> length (Plaintext dk)"
      and "Encrypt E (take 32 (Plaintext dk)) secret = Inr ctext"
      and e: "Encode \<lparr>Name = name, Version = (if version = [] then ''1'' else version),
                  Key = EncodeToString (CiphertextBlob dk), Contents = EncodeToString ctext,
                  Hmac = ComputeHmac256 E ctext (drop 32 (Plaintext dk)),
                  CreatedAt = Now_Unix E\<rparr> = Inr data"
      and w: "PutItem tbl data = Inr tbl'"
      by (rule PutSecret_success)
    have "key_of old = key_of data" using Encode_key [OF e] assms(2) by simp
    then have "PutItem tbl data = Inl (AwsError ''ConditionalCheckFailedException'')"
      using PutItem_exists [OF assms(1) _ Encode_name [OF e]] by simp
    with w show ?thesis by simp
  next
    case (Some err)
    with Pair have f: "PutSecret E tbl alias name secret version = (Some err, tbl')" by simp
    then have "tbl' = tbl" by (rule PutSecret_failure_keeps_table)
    with f show ?thesis by simp
  qed
qed

text \<open>What \<open>PutSecret\<close> does with the test double.\<close>

lemma PutSecret_stub:
  "PutSecret stub_env tbl alias name secret version =
     (case PutItem tbl (stub_item name secret (if version = [] then ''1'' else version)) of
        Inl err \<Rightarrow> (Some err, tbl) | Inr tbl' \<Rightarrow> (None, tbl'))"
  by (simp add: PutSecret_def stub_env_def stub_key_def Let_def Encode_def stub_item_alist)

text \<open>
  C4. A \<open>PutSecret\<close> with an explicit version under which the name already has a record
  fails and leaves the table, and so the stored record, as it was. Whenever the key is
  generated and the secret encrypted, the call reaches the store, and its error is that
  of the failed condition of the write, \<open>ConditionalCheckFailedException\<close> (the
  duplicate-version error of the specification).
\<close>

theorem PutSecret_duplicate_version:
  assumes "old \<in> set tbl" and "key_of old = (Some (S name), Some (S version))"
    and "version \<noteq> []"
  shows "(\<exists>err. PutSecret E tbl alias name secret version = (Some err, tbl)) \<and>
         (\<forall>dk ctext.
            GenerateDataKey E (if alias \<noteq> [] then alias else DefaultKmsKey) 64 = Inr dk \<and>
            32 \<le> length (Plaintext dk) \<and>
            Encrypt E (take 32 (Plaintext dk)) secret = Inr ctext \<longrightarrow>
            PutSecret E tbl alias name secret version =
              (Some (AwsError ''ConditionalCheckFailedException''), tbl))"
proof (intro conjI allI impI)
  show "\<exists>err. PutSecret E tbl alias name secret version = (Some err, tbl)"
    using PutSecret_existing [OF assms(1), of name version] assms(2,3) by simp
next
  fix dk ctext
  assume a: "GenerateDataKey E (if alias \<noteq> [] then alias else DefaultKmsKey) 64 = Inr dk \<and>
            32 \<le> length (Plaintext dk) \<and>
            Encrypt E (take 32 (Plaintext dk)) secret = Inr ctext"
  let ?cred = "\<lparr>Name = name, Version = (if version = [] then ''1'' else version),
                  Key = EncodeToString (CiphertextBlob dk), Contents = EncodeToString ctext,
                  Hmac = ComputeHmac256 E ctext (drop 32 (Plaintext dk)),
                  CreatedAt = Now_Unix E\<rparr>"
  obtain data where e: "Encode ?cred = Inr data" by (simp add: Encode_def)
  have k: "key_of old = key_of data" using Encode_key [OF e] assms(2,3) by simp
  have w: "PutItem tbl data = Inl (AwsError ''ConditionalCheckFailedException'')"
    by (rule PutItem_exists [OF assms(1) k Encode_name [OF e]])
  show "PutSecret E tbl alias name secret version =
              (Some (AwsError ''ConditionalCheckFailedException''), tbl)"
    using PutSecret_steps [of E "alias" dk secret ctext name version data tbl] a e w by simp
qed

theorem PutSecret_duplicate_version_witness:
  "stub_item ''db'' ''s3cr3t'' ''1'' \<in> set [stub_item ''db'' ''s3cr3t'' ''1''] \<and>
   key_of (stub_item ''db'' ''s3cr3t'' ''1'') = (Some (S ''db''), Some (S ''1'')) \<and>
   ''1'' \<noteq> [] \<and>
   GenerateDataKey stub_env (if [] \<noteq> [] then [] else DefaultKmsKey) 64 = Inr stub_key \<and>
   32 \<le> length (Plaintext stub_key) \<and>
   Encrypt stub_env (take 32 (Plaintext stub_key)) ''other'' = Inr ''rehto'' \<and>
   PutSecret stub_env [stub_item ''db'' ''s3cr3t'' ''1''] [] ''db'' ''other'' ''1'' =
     (Some (AwsError ''ConditionalCheckFailedException''), [stub_item ''db'' ''s3cr3t'' ''1''])"
proof -
  let ?old = "stub_item ''db'' ''s3cr3t'' ''1''"
  have m: "?old \<in> set [?old]" by simp
  have k: "key_of ?old = (Some (S ''db''), Some (S ''1''))"
    by (simp add: key_of_def stub_item_alist)
  have v: "''1'' \<noteq> []" by simp
  have g1: "GenerateDataKey stub_env (if [] \<noteq> [] then [] else DefaultKmsKey) 64 = Inr stub_key"
    by (simp add: stub_env_def)
  have g2: "32 \<le> length (Plaintext stub_key)"
    by (simp add: stub_key_def)
  have g3: "Encrypt stub_env (take 32 (Plaintext stub_key)) ''other'' = Inr ''rehto''"
    by (simp add: stub_env_def)
  note t = PutSecret_duplicate_version [OF m k v, of stub_env "[]" "''other''"]
  have p: "PutSecret stub_env [?old] [] ''db'' ''other'' ''1'' =
     (Some (AwsError ''ConditionalCheckFailedException''), [?old])"
    by (rule t [THEN conjunct2, rule_format, OF conjI [OF g1 conjI [OF g2 g3]]])
  show ?thesis
    by (intro conjI m k v g1 g2 g3 p)
qed

text \<open>
  C10. A \<open>PutSecret\<close> with the empty version is the \<open>PutSecret\<close> with version \<open>1\<close>: when
  it succeeds, the table has gained one item, with the key (name, \<open>1\<close>); when the name
  already has a version \<open>1\<close>, it fails and stores nothing.
\<close>

theorem PutSecret_empty_version_is_1:
  "PutSecret E tbl alias name secret [] = PutSecret E tbl alias name secret ''1'' \<and>
   (\<forall>tbl'. PutSecret E tbl alias name secret [] = (None, tbl') \<longrightarrow>
      (\<exists>data. tbl' = tbl @ [data] \<and> key_of data = (Some (S name), Some (S ''1'')))) \<and>
   ((\<exists>old\<in>set tbl. key_of old = (Some (S name), Some (S ''1''))) \<longrightarrow>
      (\<exists>err. PutSecret E tbl alias name secret [] = (Some err, tbl)))"
proof (intro conjI allI impI)
  show "PutSecret E tbl alias name secret [] = PutSecret E tbl alias name secret ''1''"
    by (simp add: PutSecret_def)
next
  fix tbl'
  assume p: "PutSecret E tbl alias name secret [] = (None, tbl')"
  from p obtain dk ctext data where
    "GenerateDataKey E (if alias \<noteq> [] then alias else DefaultKmsKey) 64 = Inr dk"
    and "32 \<le> length (Plaintext dk)"
    and "Encrypt E (take 32 (Plaintext dk)) secret = Inr ctext"
    and e: "Encode \<lparr>Name = name, Version = (if ([]::string) = [] then ''1'' else []),
                Key = EncodeToString (CiphertextBlob dk), Contents = EncodeToString ctext,
                Hmac = ComputeHmac256 E ctext (drop 32 (Plaintext dk)),
                CreatedAt = Now_Unix E\<rparr> = Inr data"
    and w: "PutItem tbl data = Inr tbl'"
    by (rule PutSecret_success)
  have "tbl' = tbl @ [data]" by (rule PutItem_fresh(1) [OF w Encode_name [OF e]])
  moreover have "key_of data = (Some (S name), Some (S ''1''))"
    using Encode_key [OF e] by simp
  ultimately show "\<exists>data. tbl' = tbl @ [data] \<and> key_of data = (Some (S name), Some (S ''1''))"
    by blast
next
  assume "\<exists>old\<in>set tbl. key_of old = (Some (S name), Some (S ''1''))"
  then obtain old where "old \<in> set tbl" "key_of old = (Some (S name), Some (S ''1''))" by blast
  then show "\<exists>err. PutSecret E tbl alias name secret [] = (Some err, tbl)"
    using PutSecret_existing [of old tbl name "[]" E "alias" secret] by simp
qed

theorem PutSecret_empty_version_is_1_witness:
  "PutSecret stub_env [] [] ''db'' ''s3cr3t'' [] = (None, [stub_item ''db'' ''s3cr3t'' ''1'']) \<and>
   (\<exists>data. [stub_item ''db'' ''s3cr3t'' ''1''] = [] @ [data] \<and>
           key_of data = (Some (S ''db''), Some (S ''1''))) \<and>
   (\<exists>old\<in>set [stub_item ''db'' ''s3cr3t'' ''1''].
      key_of old = (Some (S ''db''), Some (S ''1''))) \<and>
   (\<exists>err. PutSecret stub_env [stub_item ''db'' ''s3cr3t'' ''1''] [] ''db'' ''other'' [] =
            (Some err, [stub_item ''db'' ''s3cr3t'' ''1'']))"
proof -
  let ?old = "stub_item ''db'' ''s3cr3t'' ''1''"
  have p: "PutSecret stub_env [] [] ''db'' ''s3cr3t'' [] = (None, [?old])"
    by (simp add: PutSecret_stub PutItem_def)
  have k: "\<exists>old\<in>set [?old]. key_of old = (Some (S ''db''), Some (S ''1''))"
    by (simp add: key_of_def stub_item_alist)
  note t1 = PutSecret_empty_version_is_1 [of stub_env "[]" "[]" "''db''" "''s3cr3t''"]
  note t2 = PutSecret_empty_version_is_1 [of stub_env "[?old]" "[]" "''db''" "''other''"]
  have a: "\<exists>data. [?old] = [] @ [data] \<and> key_of data = (Some (S ''db''), Some (S ''1''))"
    by (rule t1 [THEN conjunct2, THEN conjunct1, rule_format, OF p])
  have b: "\<exists>err. PutSecret stub_env [?old] [] ''db'' ''other'' [] = (Some err, [?old])"
    by (rule t2 [THEN conjunct2, THEN conjunct2, THEN mp, OF k])
  show ?thesis
    by (intro conjI p a k b)
qed

section \<open>Properties of the sort\<close>

lemma set_insort_by: "set (insort_by lt x ys) = insert x (set ys)"
  by (induction ys) auto

lemma set_sort_Sort: "set (sort_Sort lt xs) = set xs"
  by (induction xs) (simp_all add: sort_Sort_def set_insort_by)

lemma sort_Sort_Nil: "sort_Sort lt [] = []"
  by (simp add: sort_Sort_def)

lemma insort_by_map:
  assumes "\<forall>a b. lt (f a) (f b) = lt' a b"
  shows "insort_by lt (f x) (map f ys) = map f (insort_by lt' x ys)"
  using assms by (induction ys) simp_all

lemma sort_Sort_map:
  assumes "\<forall>a b. lt (f a) (f b) = lt' a b"
  shows "sort_Sort lt (map f xs) = map f (sort_Sort lt' xs)"
proof (induction xs)
  case Nil
  show ?case by (simp add: sort_Sort_def)
next
  case (Cons x xs)
  then have "foldr (insort_by lt) (map f xs) [] = map f (foldr (insort_by lt') xs [])"
    by (simp add: sort_Sort_def)
  then show ?case
    using insort_by_map [of lt f lt', OF assms, of x "foldr (insort_by lt') xs []"]
    by (simp add: sort_Sort_def)
qed

lemma map_project_None: "map (project None) xs = xs"
  by (induction xs) (simp_all add: project_def)

lemma foldr_insort_keeps_head:
  assumes "\<forall>x\<in>set xs. lt d x"
  shows "\<exists>rest. foldr (insort_by lt) xs (d # r) = d # rest"
  using assms by (induction xs) auto

section \<open>Deleting a secret\<close>

lemma Decode_key:
  "Decode it = Inr c \<Longrightarrow>
     Name c = decode_string it ''name'' \<and> Version c = decode_string it ''version''"
  by (auto simp: Decode_def split: prod.splits option.splits)

lemma DeleteSecret_loop_result:
  "DeleteSecret_loop tbl items = (None, tbl') \<Longrightarrow>
     tbl' = filter (\<lambda>it. \<forall>i\<in>set items.
                     key_of it \<noteq> (Some (S (decode_string i ''name'')),
                                  Some (S (decode_string i ''version'')))) tbl"
proof (induction items arbitrary: tbl)
  case Nil
  then show ?case by simp
next
  case (Cons i items)
  from Cons.prems obtain c where d: "Decode i = Inr c"
    by (cases "Decode i") auto
  let ?t = "filter (\<lambda>it. key_of it \<noteq> (Some (S (Name c)), Some (S (Version c)))) tbl"
  from Cons.prems d have l: "DeleteSecret_loop ?t items = (None, tbl')"
    by (simp add: DeleteItem_def)
  note k = Decode_key [OF d]
  show ?case
    using Cons.IH [OF l] by (simp add: k [THEN conjunct1] k [THEN conjunct2])
qed

lemma has_key_schemaD:
  "has_key_schema it \<Longrightarrow> \<exists>n v. key_of it = (Some (S n), Some (S v))"
  by (auto simp: has_key_schema_def split: prod.splits option.splits AttributeValue.splits)

text \<open>
  C8. After a \<open>DeleteSecret\<close> that returned no error, on a table whose items have the
  key attributes of the schema, \<open>GetSecret\<close> for that name returns \<open>ErrSecretNotFound\<close>
  whatever the version asked for, the empty one included.
\<close>

theorem DeleteSecret_then_GetSecret:
  assumes "DeleteSecret tbl name = (None, tbl')"
    and "list_all has_key_schema tbl"
  shows "GetSecret E tbl' name version = Inl ErrSecretNotFound"
proof -
  let ?items = "sort_Sort (\<lambda>a b. str_less (range_key b) (range_key a))
                  (filter (key_condition name None) tbl)"
  from assms(1) have l: "DeleteSecret_loop tbl ?items = (None, tbl')"
    by (simp add: DeleteSecret_def Query_def map_project_None)
  note r = DeleteSecret_loop_result [OF l]
  have none: "filter (key_condition name v) tbl' = []" for v
  proof (rule ccontr)
    assume "filter (key_condition name v) tbl' \<noteq> []"
    then obtain it where i: "it \<in> set tbl'" and c: "key_condition name v it"
      by (auto simp: filter_empty_conv)
    from i r have t: "it \<in> set tbl" by auto
    from c have n: "map_of it ''name'' = Some (S name)" by (simp add: key_condition_def)
    then have c0: "key_condition name None it" by (simp add: key_condition_def)
    with t have m: "it \<in> set ?items" by (simp add: set_sort_Sort)
    from assms(2) t have "has_key_schema it" by (simp add: list_all_iff)
    then obtain n' v' where k: "key_of it = (Some (S n'), Some (S v'))"
      using has_key_schemaD by blast
    then have "key_of it = (Some (S (decode_string it ''name'')),
                            Some (S (decode_string it ''version'')))"
      by (auto simp: key_of_def decode_string_def)
    with i r m show False by auto
  qed
  show ?thesis
    by (simp add: GetSecret_def Query_def none sort_Sort_Nil)
qed

theorem DeleteSecret_then_GetSecret_witness:
  "DeleteSecret [stub_item ''db'' ''s3cr3t'' ''1'', stub_item ''web'' ''t0k3n'' ''1'',
                 stub_item ''db'' ''n3w'' ''2''] ''db'' =
     (None, [stub_item ''web'' ''t0k3n'' ''1'']) \<and>
   list_all has_key_schema
     [stub_item ''db'' ''s3cr3t'' ''1'', stub_item ''web'' ''t0k3n'' ''1'',
      stub_item ''db'' ''n3w'' ''2''] \<and>
   GetSecret stub_env [stub_item ''web'' ''t0k3n'' ''1''] ''db'' ''1'' = Inl ErrSecretNotFound \<and>
   GetSecret stub_env [stub_item ''web'' ''t0k3n'' ''1''] ''db'' ''2'' = Inl ErrSecretNotFound \<and>
   GetSecret stub_env [stub_item ''web'' ''t0k3n'' ''1''] ''db'' [] = Inl ErrSecretNotFound"
proof -
  let ?tbl = "[stub_item ''db'' ''s3cr3t'' ''1'', stub_item ''web'' ''t0k3n'' ''1'',
               stub_item ''db'' ''n3w'' ''2'']"
  have d: "DeleteSecret ?tbl ''db'' = (None, [stub_item ''web'' ''t0k3n'' ''1''])"
    by (simp add: DeleteSecret_def Query_def map_project_None key_condition_stub_item
        sort_Sort_def range_key_stub_item Decode_stub_item DeleteItem_def key_of_stub_item
        stub_cred_def)
  have k: "list_all has_key_schema ?tbl"
    by (simp add: has_key_schema_stub_item)
  note t = DeleteSecret_then_GetSecret [OF d k, of stub_env]
  show ?thesis
    by (intro conjI d k t)
qed

section \<open>Reading all secrets\<close>

lemma GetAllSecrets_loop_acc:
  "GetAllSecrets_loop E creds acc =
     (case GetAllSecrets_loop E creds [] of Inl e \<Rightarrow> Inl e | Inr rs \<Rightarrow> Inr (acc @ rs))"
proof (induction creds arbitrary: acc)
  case Nil
  show ?case by simp
next
  case (Cons c creds)
  show ?case
  proof (cases "decryptCredential E c")
    case (Inl err)
    show ?thesis
      using Cons.IH [of "acc @ [None]"] Cons.IH [of "[None]"] Cons.IH [of acc]
      by (simp add: Inl split: sum.splits)
  next
    case (Inr d)
    show ?thesis
      using Cons.IH [of "acc @ [Some d]"] Cons.IH [of "[Some d]"]
      by (simp add: Inr split: sum.splits)
  qed
qed

lemma GetAllSecrets_loop_append:
  "GetAllSecrets_loop E (pre @ creds) acc =
     (case GetAllSecrets_loop E pre acc of
        Inl e \<Rightarrow> Inl e | Inr rs \<Rightarrow> GetAllSecrets_loop E creds rs)"
proof (induction pre arbitrary: acc)
  case Nil
  show ?case by simp
next
  case (Cons c pre)
  show ?case
    by (cases "decryptCredential E c") (simp_all add: Cons.IH)
qed

lemma GetAllSecrets_loop_returns:
  assumes "\<forall>c\<in>set creds. decryptCredential E c \<noteq> Inl RuntimePanic"
  shows "\<exists>rs. GetAllSecrets_loop E creds [] = Inr rs"
  using assms
proof (induction creds)
  case Nil
  show ?case by simp
next
  case (Cons c creds)
  then obtain rs where r: "GetAllSecrets_loop E creds [] = Inr rs" by auto
  from Cons.prems have np: "decryptCredential E c \<noteq> Inl RuntimePanic" by simp
  show ?case
  proof (cases "decryptCredential E c")
    case (Inl err)
    with np have "err \<noteq> RuntimePanic" by simp
    then show ?thesis
      using GetAllSecrets_loop_acc [of E creds "[None]"] r by (simp add: Inl)
  next
    case (Inr d)
    then show ?thesis
      using GetAllSecrets_loop_acc [of E creds "[Some d]"] r by simp
  qed
qed

text \<open>
  C3. When a record that reaches the loop of \<open>GetAllSecrets\<close> fails to decrypt with an
  error other than the access-denied error of the key service, \<open>GetAllSecrets\<close> returns
  no error, and its list holds a nil entry for that record: after the entries of the
  records before it and before those of the records after it. The records that reach the
  loop are those of the scan, all decoded, cut to the latest per name unless all versions
  are asked for, sorted by name; none of them makes \<open>decryptCredential\<close> panic.
\<close>

theorem GetAllSecrets_nil_entry:
  assumes "Scan tbl (Some [''name'', ''version'', ''key'', ''contents'', ''hmac'',
                           ''created_at'']) = Inr items"
    and "decodeCredential items = Inr creds"
    and "(if \<not> allVersions then filterLatest creds else Inr creds) = Inr creds'"
    and "sort_Sort ByName_Less creds' = pre @ cred # post"
    and "decryptCredential E cred = Inl err"
    and "err \<noteq> AwsError ''AccessDeniedException''"
    and "list_all (\<lambda>c. decryptCredential E c \<noteq> Inl RuntimePanic) (pre @ cred # post)"
  shows "\<exists>rs1 rs2. GetAllSecrets E tbl allVersions = Inr (rs1 @ None # rs2) \<and>
                   GetAllSecrets_loop E pre [] = Inr rs1 \<and>
                   GetAllSecrets_loop E post [] = Inr rs2"
proof -
  from assms(7) have all: "\<forall>c\<in>set (pre @ cred # post). decryptCredential E c \<noteq> Inl RuntimePanic"
    by (simp add: list_all_iff)
  from all obtain rs1 where r1: "GetAllSecrets_loop E pre [] = Inr rs1"
    using GetAllSecrets_loop_returns [of pre E] by auto
  from all obtain rs2 where r2: "GetAllSecrets_loop E post [] = Inr rs2"
    using GetAllSecrets_loop_returns [of post E] by auto
  from assms(5) all have np: "err \<noteq> RuntimePanic" by auto
  have "GetAllSecrets E tbl allVersions = GetAllSecrets_loop E (pre @ cred # post) []"
    using assms(1-4) by (simp add: GetAllSecrets_def)
  also have "\<dots> = GetAllSecrets_loop E (cred # post) rs1"
    by (simp add: GetAllSecrets_loop_append r1)
  also have "\<dots> = GetAllSecrets_loop E post (rs1 @ [None])"
    using assms(5,6) np by simp
  also have "\<dots> = Inr (rs1 @ None # rs2)"
    using GetAllSecrets_loop_acc [of E post "rs1 @ [None]"] r2 by simp
  finally show ?thesis using r1 r2 by blast
qed

text \<open>The three credentials of the test double, read one by one and sorted.\<close>

lemma decodeCredential_encoded: "decodeCredential (map encoded cs) = Inr cs"
  by (induction cs) (simp_all add: Decode_encoded)

lemma Scan_all_encoded:
  "Scan (map encoded cs)
     (Some [''name'', ''version'', ''key'', ''contents'', ''hmac'', ''created_at'']) =
   Inr (map encoded cs)"
  by (induction cs) (simp_all add: Scan_def project_all_encoded)

lemma decryptCredential_stub_good:
  "decryptCredential stub_env stub_good = Inr \<lparr>Credential = stub_good, Secret = ''t0k3n''\<rparr>"
  by (simp add: stub_good_def decryptCredential_stub_cred)

lemma decryptCredential_stub_forged:
  "decryptCredential stub_env stub_forged = Inl ErrHmacValidationFailed"
  by (simp add: decryptCredential_def stub_forged_def stub_cred_def DecodeString_EncodeToString
      stub_env_def stub_key_facts stub_blob_not_denied)

lemma decryptCredential_stub_denied:
  "decryptCredential stub_env stub_denied = Inl (AwsError ''AccessDeniedException'')"
  by (simp add: decryptCredential_def stub_denied_def stub_cred_def DecodeString_EncodeToString
      stub_env_def)

lemma sort_by_name_stub:
  "sort_Sort ByName_Less [stub_denied, stub_forged, stub_good] =
     [stub_good, stub_forged, stub_denied]"
  by (simp add: sort_Sort_def ByName_Less_def stub_good_def stub_forged_def stub_denied_def
      stub_cred_def)

theorem GetAllSecrets_nil_entry_witness:
  "Scan (map encoded [stub_denied, stub_forged, stub_good])
     (Some [''name'', ''version'', ''key'', ''contents'', ''hmac'', ''created_at'']) =
     Inr (map encoded [stub_denied, stub_forged, stub_good]) \<and>
   decodeCredential (map encoded [stub_denied, stub_forged, stub_good]) =
     Inr [stub_denied, stub_forged, stub_good] \<and>
   sort_Sort ByName_Less [stub_denied, stub_forged, stub_good] =
     [stub_good] @ stub_forged # [stub_denied] \<and>
   decryptCredential stub_env stub_forged = Inl ErrHmacValidationFailed \<and>
   ErrHmacValidationFailed \<noteq> AwsError ''AccessDeniedException'' \<and>
   list_all (\<lambda>c. decryptCredential stub_env c \<noteq> Inl RuntimePanic)
     ([stub_good] @ stub_forged # [stub_denied]) \<and>
   (\<exists>rs1 rs2.
      GetAllSecrets stub_env (map encoded [stub_denied, stub_forged, stub_good]) True =
        Inr (rs1 @ None # rs2) \<and>
      GetAllSecrets_loop stub_env [stub_good] [] = Inr rs1 \<and>
      GetAllSecrets_loop stub_env [stub_denied] [] = Inr rs2)"
proof -
  let ?cs = "[stub_denied, stub_forged, stub_good]"
  have h1: "Scan (map encoded ?cs)
     (Some [''name'', ''version'', ''key'', ''contents'', ''hmac'', ''created_at'']) =
     Inr (map encoded ?cs)" by (rule Scan_all_encoded)
  have h2: "decodeCredential (map encoded ?cs) = Inr ?cs" by (rule decodeCredential_encoded)
  have h3: "(if \<not> True then filterLatest ?cs else Inr ?cs) = Inr ?cs" by simp
  have h4: "sort_Sort ByName_Less ?cs = [stub_good] @ stub_forged # [stub_denied]"
    by (simp add: sort_by_name_stub)
  have h5: "decryptCredential stub_env stub_forged = Inl ErrHmacValidationFailed"
    by (rule decryptCredential_stub_forged)
  have h6: "ErrHmacValidationFailed \<noteq> AwsError ''AccessDeniedException''" by simp
  have h7: "list_all (\<lambda>c. decryptCredential stub_env c \<noteq> Inl RuntimePanic)
              ([stub_good] @ stub_forged # [stub_denied])"
    by (simp add: decryptCredential_stub_good decryptCredential_stub_forged
        decryptCredential_stub_denied)
  note t = GetAllSecrets_nil_entry [OF h1 h2 h3 h4 h5 h6 h7]
  show ?thesis
    by (intro conjI h1 h2 h4 h5 h6 h7 t)
qed

text \<open>
  C2. A table of three records: one reads back, one has a forged tag, so that its
  decryption fails with \<open>ErrHmacValidationFailed\<close>, and one is refused by the key
  service. \<open>GetAllSecrets\<close> does not stop at the failed tag and returns no error: its
  list has the record that reads back and a nil entry.
\<close>

theorem GetAllSecrets_appends_nil_on_failed_tag:
  "decryptCredential stub_env stub_forged = Inl ErrHmacValidationFailed \<and>
   GetAllSecrets stub_env [encoded stub_denied, encoded stub_forged, encoded stub_good] True =
     Inr [Some \<lparr>Credential = stub_good, Secret = ''t0k3n''\<rparr>, None]"
proof -
  have s: "[encoded stub_denied, encoded stub_forged, encoded stub_good] =
           map encoded [stub_denied, stub_forged, stub_good]" by simp
  show ?thesis
    unfolding s
    by (simp add: GetAllSecrets_def Scan_all_encoded decodeCredential_encoded sort_by_name_stub
        decryptCredential_stub_good decryptCredential_stub_forged decryptCredential_stub_denied
        del: list.map)
qed

section \<open>Reading back what was written\<close>

lemma decryptCredential_sealed:
  assumes "DecryptDataKey E (CiphertextBlob dk) = Inr dk'"
    and "Plaintext dk' = Plaintext dk"
    and "32 \<le> length (Plaintext dk)"
    and "Decrypt E (take 32 (Plaintext dk)) ctext = Inr secret"
    and "Key cred = EncodeToString (CiphertextBlob dk)"
    and "Contents cred = EncodeToString ctext"
    and "Hmac cred = ComputeHmac256 E ctext (drop 32 (Plaintext dk))"
  shows "decryptCredential E cred = Inr \<lparr>Credential = cred, Secret = secret\<rparr>"
  using assms by (simp add: decryptCredential_def DecodeString_EncodeToString Let_def)

lemma Query_newest_last:
  assumes "key_condition name None data"
    and "list_all (\<lambda>it. key_condition name None it \<longrightarrow>
                         str_less (range_key it) (range_key data)) tbl"
  shows "Query (tbl @ [data]) name None (Some 1) None = Inr [data]"
proof -
  let ?lt = "\<lambda>a b. str_less (range_key b) (range_key a)"
  let ?fs = "filter (key_condition name None) tbl"
  have "\<forall>x\<in>set ?fs. ?lt data x" using assms(2) by (auto simp: list_all_iff)
  then obtain rest where "foldr (insort_by ?lt) ?fs [data] = data # rest"
    using foldr_insort_keeps_head [of ?fs ?lt data "[]"] by blast
  then have "sort_Sort ?lt (filter (key_condition name None) (tbl @ [data])) = data # rest"
    using assms(1) by (simp add: sort_Sort_def)
  then show ?thesis
    by (simp add: Query_def map_project_None)
qed

text \<open>
  C5. After a \<open>PutSecret\<close> that returned no error, \<open>GetSecret\<close> with no version, on
  the table as the write left it, returns a credential whose \<open>Secret\<close> is the secret
  that was written. The collaborators keep their contracts (the key service unwraps what
  it wrapped, the cipher decrypts what it encrypted), and the written version is the one
  the read selects: the name is new to the table, or each version it already has sorts
  below the written one in the store.
\<close>

theorem PutSecret_GetSecret_round_trip:
  assumes "PutSecret E tbl alias name secret version = (None, tbl')"
    and "unwraps E" and "inverts E"
    and "list_all (\<lambda>it. key_condition name None it \<longrightarrow>
                         str_less (range_key it) (if version = [] then ''1'' else version)) tbl"
  shows "\<exists>d. GetSecret E tbl' name [] = Inr d \<and> Secret d = secret"
proof -
  define v where "v = (if version = [] then ''1'' else version)"
  from assms(1) obtain dk ctext data where
    g: "GenerateDataKey E (if alias \<noteq> [] then alias else DefaultKmsKey) 64 = Inr dk"
    and l: "32 \<le> length (Plaintext dk)"
    and c: "Encrypt E (take 32 (Plaintext dk)) secret = Inr ctext"
    and e: "Encode \<lparr>Name = name, Version = (if version = [] then ''1'' else version),
                  Key = EncodeToString (CiphertextBlob dk), Contents = EncodeToString ctext,
                  Hmac = ComputeHmac256 E ctext (drop 32 (Plaintext dk)),
                  CreatedAt = Now_Unix E\<rparr> = Inr data"
    and w: "PutItem tbl data = Inr tbl'"
    by (rule PutSecret_success)
  define cred where "cred = \<lparr>Name = name, Version = v,
                  Key = EncodeToString (CiphertextBlob dk), Contents = EncodeToString ctext,
                  Hmac = ComputeHmac256 E ctext (drop 32 (Plaintext dk)),
                  CreatedAt = Now_Unix E\<rparr>"
  from e have e': "Encode cred = Inr data" by (simp only: cred_def v_def)
  have t: "tbl' = tbl @ [data]" by (rule PutItem_fresh(1) [OF w Encode_name [OF e']])
  have k: "key_of data = (Some (S name), Some (S v))"
    using Encode_key [OF e'] by (simp add: cred_def)
  then have kc: "key_condition name None data" and rk: "range_key data = v"
    by (simp_all add: key_of_def key_condition_def range_key_def)
  from assms(4) have b: "list_all (\<lambda>it. key_condition name None it \<longrightarrow>
                         str_less (range_key it) (range_key data)) tbl"
    by (simp only: rk v_def)
  have q: "Query tbl' name None (Some 1) None = Inr [data]"
    unfolding t by (rule Query_newest_last [OF kc b])
  have d: "Decode data = Inr cred" by (rule Decode_Encode [OF e'])
  from assms(2) g obtain dk' where
    u: "DecryptDataKey E (CiphertextBlob dk) = Inr dk'" and p: "Plaintext dk' = Plaintext dk"
    unfolding unwraps_def by blast
  from assms(3) c have i: "Decrypt E (take 32 (Plaintext dk)) ctext = Inr secret"
    unfolding inverts_def by blast
  have r: "decryptCredential E cred = Inr \<lparr>Credential = cred, Secret = secret\<rparr>"
    by (rule decryptCredential_sealed [OF u p l i]) (simp_all add: cred_def)
  have "GetSecret E tbl' name [] = Inr \<lparr>Credential = cred, Secret = secret\<rparr>"
    using q d r by (simp add: GetSecret_def)
  then show ?thesis by simp
qed

lemma unwraps_stub_env: "unwraps stub_env"
  by (simp add: unwraps_def stub_env_def stub_blob_not_denied)

lemma inverts_stub_env: "inverts stub_env"
  by (auto simp: inverts_def stub_env_def)

theorem PutSecret_GetSecret_round_trip_witness:
  "PutSecret stub_env [encoded stub_good] [] ''db/password'' ''s3cr3t'' [] =
     (None, [encoded stub_good, stub_item ''db/password'' ''s3cr3t'' ''1'']) \<and>
   unwraps stub_env \<and> inverts stub_env \<and>
   list_all (\<lambda>it. \<not> key_condition ''db/password'' None it) [encoded stub_good] \<and>
   (\<exists>d. GetSecret stub_env [encoded stub_good, stub_item ''db/password'' ''s3cr3t'' ''1'']
            ''db/password'' [] = Inr d \<and> Secret d = ''s3cr3t'')"
proof -
  have p: "PutSecret stub_env [encoded stub_good] [] ''db/password'' ''s3cr3t'' [] =
     (None, [encoded stub_good, stub_item ''db/password'' ''s3cr3t'' ''1''])"
    by (simp add: PutSecret_stub PutItem_def key_of_encoded key_of_stub_item stub_good_def
        stub_cred_def)
  have n: "list_all (\<lambda>it. \<not> key_condition ''db/password'' None it) [encoded stub_good]"
    by (simp add: key_condition_encoded stub_good_def stub_cred_def)
  then have h: "list_all (\<lambda>it. key_condition ''db/password'' None it \<longrightarrow>
                   str_less (range_key it) (if ([]::string) = [] then ''1'' else []))
                 [encoded stub_good]"
    by simp
  note t = PutSecret_GetSecret_round_trip [OF p unwraps_stub_env inverts_stub_env h]
  show ?thesis
    by (intro conjI p unwraps_stub_env inverts_stub_env n t)
qed

section \<open>The latest version\<close>

lemma stub_cred_sel:
  "Name (stub_cred n s v) = n" "Version (stub_cred n s v) = v"
  by (simp_all add: stub_cred_def)

lemma put_all_1_to_11: "put_all stub_env [] ''db'' versions_1_to_11 = table_1_to_11"
  by (simp add: put_all_def versions_1_to_11_def PutSecret_stub PutItem_def key_of_stub_item
      table_1_to_11_def creds_1_to_11_def stub_item_def [symmetric])

lemma store_first_1_to_11:
  "take (Suc 0) (sort_Sort (\<lambda>a b. str_less (range_key b) (range_key a)) table_1_to_11) =
     [stub_item ''db'' ''secret-9'' ''9'']"
  by (simp add: sort_Sort_def versions_1_to_11_def range_key_stub_item
      table_1_to_11_def creds_1_to_11_def stub_item_def [symmetric])

lemma filter_name_1_to_11: "filter (key_condition ''db'' None) table_1_to_11 = table_1_to_11"
  by (simp add: key_condition_encoded table_1_to_11_def creds_1_to_11_def stub_cred_sel)

lemma ParseInt_FormatInt_sint: "ParseInt (FormatInt (sint (w :: int64))) = (sint w, None)"
proof -
  have "- (2 ^ 63) \<le> sint w" "sint w < 2 ^ 63"
    using sint_ge [of w] sint_lt [of w] by simp_all
  then show ?thesis by (rule ParseInt_FormatInt)
qed

lemma Decode_listed:
  "Decode (project (Some [''name'', ''version'', ''created_at'']) (encoded c)) =
     Inr (c\<lparr>Key := [], Contents := [], Hmac := []\<rparr>)"
  by (simp add: project_def encoded_def Decode_def decode_string_def ParseInt_FormatInt_sint)

lemma decodeCredential_listed:
  "decodeCredential (map (project (Some [''name'', ''version'', ''created_at'']) \<circ> encoded) cs) =
     Inr (map (\<lambda>c. c\<lparr>Key := [], Contents := [], Hmac := []\<rparr>) cs)"
  by (induction cs) (simp_all add: Decode_listed)

lemma Atoi_versions:
  "fst (Atoi ''1'') = 1" "fst (Atoi ''2'') = 2" "fst (Atoi ''3'') = 3" "fst (Atoi ''4'') = 4"
  "fst (Atoi ''5'') = 5" "fst (Atoi ''6'') = 6" "fst (Atoi ''7'') = 7" "fst (Atoi ''8'') = 8"
  "fst (Atoi ''9'') = 9" "fst (Atoi ''10'') = 10" "fst (Atoi ''11'') = 11"
  by (simp_all add: Atoi_def ParseInt_def is_digit_def nat_of_digits_def)

lemma filterLatest_1_to_11:
  "filterLatest creds_1_to_11 = Inr [stub_cred ''db'' ''secret-11'' ''11'']"
  by (simp add: filterLatest_def sort_Sort_def versions_1_to_11_def ByVersion_Less_def
      stub_cred_sel Atoi_versions creds_1_to_11_def)

lemma filterLatest_listed_1_to_11:
  "filterLatest (map (\<lambda>c. c\<lparr>Key := [], Contents := [], Hmac := []\<rparr>) creds_1_to_11) =
     Inr [(stub_cred ''db'' ''secret-11'' ''11'')\<lparr>Key := [], Contents := [], Hmac := []\<rparr>]"
  by (simp add: filterLatest_def sort_Sort_def versions_1_to_11_def ByVersion_Less_def
      stub_cred_sel Atoi_versions creds_1_to_11_def)

text \<open>
  C1. The table holds the versions 1 to 11 of one name, each written by \<open>PutSecret\<close>.
  \<open>GetSecret\<close> with no version takes the first item of the store's descending order,
  which compares the version strings byte by byte: it returns version 9. \<open>ListSecrets\<close>
  and \<open>GetAllSecrets\<close> without all versions go through \<open>filterLatest\<close>, which
  compares the parsed integers: they return version 11.
\<close>

theorem latest_of_1_to_11:
  "GetSecret stub_env (put_all stub_env [] ''db'' versions_1_to_11) ''db'' [] =
     Inr \<lparr>Credential = stub_cred ''db'' ''secret-9'' ''9'', Secret = ''secret-9''\<rparr> \<and>
   ListSecrets (put_all stub_env [] ''db'' versions_1_to_11) False =
     Inr [(stub_cred ''db'' ''secret-11'' ''11'')\<lparr>Key := [], Contents := [], Hmac := []\<rparr>] \<and>
   GetAllSecrets stub_env (put_all stub_env [] ''db'' versions_1_to_11) False =
     Inr [Some \<lparr>Credential = stub_cred ''db'' ''secret-11'' ''11'', Secret = ''secret-11''\<rparr>]"
proof (intro conjI)
  show "GetSecret stub_env (put_all stub_env [] ''db'' versions_1_to_11) ''db'' [] =
     Inr \<lparr>Credential = stub_cred ''db'' ''secret-9'' ''9'', Secret = ''secret-9''\<rparr>"
    by (simp add: GetSecret_def Query_def put_all_1_to_11 filter_name_1_to_11
        store_first_1_to_11 project_def Decode_stub_item decryptCredential_stub_cred)
next
  show "ListSecrets (put_all stub_env [] ''db'' versions_1_to_11) False =
     Inr [(stub_cred ''db'' ''secret-11'' ''11'')\<lparr>Key := [], Contents := [], Hmac := []\<rparr>]"
    by (simp add: ListSecrets_def Scan_def put_all_1_to_11 table_1_to_11_def
        decodeCredential_listed filterLatest_listed_1_to_11 sort_Sort_def)
next
  show "GetAllSecrets stub_env (put_all stub_env [] ''db'' versions_1_to_11) False =
     Inr [Some \<lparr>Credential = stub_cred ''db'' ''secret-11'' ''11'', Secret = ''secret-11''\<rparr>]"
    by (simp add: GetAllSecrets_def put_all_1_to_11 table_1_to_11_def Scan_all_encoded
        decodeCredential_encoded filterLatest_1_to_11 sort_Sort_def decryptCredential_stub_cred)
qed

lemma Itoa_10: "Itoa 10 = ''10''"
  by (simp add: Itoa_def FormatInt_def digits_of_nat.simps digit_char_def char_of_eq_iff)

lemma Atoi_9: "Atoi ''9'' = (9, None)"
  by (simp add: Atoi_def ParseInt_def is_digit_def nat_of_digits_def)

text \<open>The two branches of \<open>ResolveVersion\<close> that do not read a stored version.\<close>

lemma ResolveVersion_explicit:
  "version \<noteq> 0 \<Longrightarrow> ResolveVersion tbl name version = Inr (Itoa (sint version))"
  by (simp add: ResolveVersion_def)

lemma ResolveVersion_first:
  assumes "filter (key_condition name None) tbl = []"
  shows "ResolveVersion tbl name 0 = Inr ''1''"
  using assms
  by (simp add: ResolveVersion_def GetHighestVersion_def Query_def sort_Sort_Nil)

text \<open>
  C7. On the same table, \<open>ResolveVersion\<close> with no explicit version asks the store for
  the highest version, gets 9, and returns 10, a version the name already has.
\<close>

theorem ResolveVersion_after_1_to_11:
  "ResolveVersion (put_all stub_env [] ''db'' versions_1_to_11) ''db'' 0 = Inr ''10''"
  by (simp add: ResolveVersion_def GetHighestVersion_def Query_def put_all_1_to_11
      filter_name_1_to_11 store_first_1_to_11 project_def stub_item_alist Atoi_9 Itoa_10)

section \<open>Reading an altered record\<close>

lemma update_keeps_key:
  assumes "attr \<noteq> ''name''" and "attr \<noteq> ''version''"
  shows "key_of (AList.update attr v it) = key_of it"
    and "range_key (AList.update attr v it) = range_key it"
    and "key_condition name ver (AList.update attr v it) = key_condition name ver it"
  using assms
  by (simp_all add: key_of_def range_key_def key_condition_def update_conv' split: option.splits)

lemma Query_tamper:
  assumes "attr \<noteq> ''name''" and "attr \<noteq> ''version''"
  shows "Query (tamper tbl n0 v0 attr val) name ver limit None =
           (case Query tbl name ver limit None of
              Inl err \<Rightarrow> Inl err
            | Inr items \<Rightarrow>
                Inr (map (\<lambda>it. if key_of it = (Some (S n0), Some (S v0))
                               then AList.update attr (S val) it else it) items))"
proof -
  let ?f = "\<lambda>it. if key_of it = (Some (S n0), Some (S v0))
                 then AList.update attr (S val) it else it"
  let ?lt = "\<lambda>a b. str_less (range_key b) (range_key a)"
  have kc: "key_condition name ver (?f it) = key_condition name ver it" for it
    using update_keeps_key(3) [OF assms] by simp
  have rk: "range_key (?f it) = range_key it" for it
    using update_keeps_key(2) [OF assms] by simp
  have f: "filter (key_condition name ver) (map ?f tbl) =
           map ?f (filter (key_condition name ver) tbl)"
    by (simp add: filter_map comp_def kc)
  have s: "sort_Sort ?lt (map ?f xs) = map ?f (sort_Sort ?lt xs)" for xs
    by (rule sort_Sort_map) (simp add: rk)
  show ?thesis
    unfolding tamper_def Query_def f s
    by (cases limit) (simp_all add: map_project_None take_map)
qed

lemma Query_member:
  assumes "Query tbl name ver limit None = Inr items" and "it \<in> set items"
  shows "it \<in> set tbl \<and> key_condition name ver it"
proof -
  let ?lt = "\<lambda>a b. str_less (range_key b) (range_key a)"
  let ?found = "sort_Sort ?lt (filter (key_condition name ver) tbl)"
  have "set items \<subseteq> set ?found"
    using assms(1) by (cases limit) (auto simp: Query_def map_project_None dest: in_set_takeD)
  with assms(2) show ?thesis by (auto simp: set_sort_Sort)
qed

lemma Decode_update_hmac:
  "Decode it = Inr cred \<Longrightarrow> Decode (AList.update ''hmac'' (S mac') it) = Inr (cred\<lparr>Hmac := mac'\<rparr>)"
  by (auto simp: Decode_def decode_string_def update_conv' split: prod.splits option.splits)

lemma Decode_update_contents:
  "Decode it = Inr cred \<Longrightarrow>
     Decode (AList.update ''contents'' (S c') it) = Inr (cred\<lparr>Contents := c'\<rparr>)"
  by (auto simp: Decode_def decode_string_def update_conv' split: prod.splits option.splits)

lemma decryptCredential_forged_tag:
  assumes "decryptCredential E cred = Inr d" and "mac' \<noteq> Hmac cred"
  shows "decryptCredential E (cred\<lparr>Hmac := mac'\<rparr>) = Inl ErrHmacValidationFailed"
  using assms
  by (auto simp: decryptCredential_def Let_def split: sum.splits if_splits)

lemma decryptCredential_corrupt_contents:
  assumes "decryptCredential E cred = Inr d" and "DecodeString c' = Inl err"
  shows "decryptCredential E (cred\<lparr>Contents := c'\<rparr>) = Inl err"
  using assms
  by (auto simp: decryptCredential_def Let_def split: sum.splits if_splits)

lemma decryptCredential_altered_contents:
  assumes "decryptCredential E cred = Inr d" and "DecodeString c' = Inr bytes'"
    and "DecodeString (Key cred) = Inr wk" and "DecryptDataKey E wk = Inr dk"
    and "ComputeHmac256 E bytes' (drop 32 (Plaintext dk)) \<noteq> Hmac cred"
  shows "decryptCredential E (cred\<lparr>Contents := c'\<rparr>) = Inl ErrHmacValidationFailed"
  using assms
  by (auto simp: decryptCredential_def Let_def split: sum.splits if_splits)

text \<open>What \<open>GetSecret\<close> reads, and what it reads after the record was altered.\<close>

lemma GetSecret_reads:
  assumes "GetSecret E tbl name version = Inr d"
  obtains it0 where
    "Query tbl name (if length version > 0 then Some version else None) (Some 1) None
       = Inr [it0]"
    and "Decode it0 = Inr (Credential d)"
    and "decryptCredential E (Credential d) = Inr d"
proof -
  let ?ver = "if length version > 0 then Some version else None"
  obtain items where q: "Query tbl name ?ver (Some 1) None = Inr items"
    by (simp add: Query_def)
  have "length items \<le> 1" using q by (auto simp: Query_def)
  moreover from assms q have "items \<noteq> []"
    by (auto simp: GetSecret_def)
  ultimately obtain it0 where i: "items = [it0]"
    by (cases items) auto
  from assms q i obtain cred where c: "Decode it0 = Inr cred"
    and r: "decryptCredential E cred = Inr d"
    by (auto simp: GetSecret_def split: sum.splits)
  from r have "Credential d = cred"
    by (auto simp: decryptCredential_def Let_def split: sum.splits if_splits)
  with q i c r that show ?thesis by simp
qed

lemma GetSecret_tampered:
  assumes "GetSecret E tbl name version = Inr d"
    and "list_all has_key_schema tbl"
    and "attr \<noteq> ''name''" and "attr \<noteq> ''version''"
  obtains it0 where "Decode it0 = Inr (Credential d)"
    and "GetSecret E (tamper tbl name (Version (Credential d)) attr val) name version =
           (case Decode (AList.update attr (S val) it0) of
              Inl err \<Rightarrow> Inl err
            | Inr cred \<Rightarrow> decryptCredential E cred)"
proof -
  let ?ver = "if length version > 0 then Some version else None"
  from assms(1) obtain it0 where
    q: "Query tbl name ?ver (Some 1) None = Inr [it0]"
    and c: "Decode it0 = Inr (Credential d)"
    by (rule GetSecret_reads)
  have m: "it0 \<in> set tbl" and kc: "key_condition name ?ver it0"
    using Query_member [OF q, of it0] by simp_all
  from assms(2) m have "has_key_schema it0" by (simp add: list_all_iff)
  then obtain n v where k: "key_of it0 = (Some (S n), Some (S v))"
    using has_key_schemaD by blast
  from kc k have n: "n = name" by (simp add: key_condition_def key_of_def)
  from k Decode_key [OF c] have v: "Version (Credential d) = v"
    by (simp add: key_of_def decode_string_def)
  have k0: "key_of it0 = (Some (S name), Some (S (Version (Credential d))))"
    using k n v by simp
  have "Query (tamper tbl name (Version (Credential d)) attr val) name ?ver (Some 1) None =
          Inr [AList.update attr (S val) it0]"
    using Query_tamper [OF assms(3,4), of tbl name "Version (Credential d)" val name ?ver "Some 1"]
      q k0 by simp
  then have "GetSecret E (tamper tbl name (Version (Credential d)) attr val) name version =
           (case Decode (AList.update attr (S val) it0) of
              Inl err \<Rightarrow> Inl err
            | Inr cred \<Rightarrow> decryptCredential E cred)"
    by (simp add: GetSecret_def)
  with c that show ?thesis by blast
qed


text \<open>
  C6, as the code has it. A record that \<open>GetSecret\<close> reads back is altered in the table.
  With another stored tag, \<open>GetSecret\<close> fails with \<open>ErrHmacValidationFailed\<close>. With
  another stored ciphertext, it fails with the error of the base64 decoder when the text
  does not decode, and with \<open>ErrHmacValidationFailed\<close> when the text decodes to bytes
  whose tag under the record's key is not the stored one. No credential is returned in
  any of these cases, and \<open>ErrHmacValidationFailed\<close> is not \<open>ErrSecretNotFound\<close>.
\<close>

theorem GetSecret_altered_record:
  assumes "GetSecret E tbl name version = Inr d" and "list_all has_key_schema tbl"
  shows "(\<forall>mac'. mac' \<noteq> Hmac (Credential d) \<longrightarrow>
            GetSecret E (tamper tbl name (Version (Credential d)) ''hmac'' mac') name version =
              Inl ErrHmacValidationFailed) \<and>
         (\<forall>c' err. DecodeString c' = Inl err \<longrightarrow>
            GetSecret E (tamper tbl name (Version (Credential d)) ''contents'' c') name version =
              Inl err) \<and>
         (\<forall>c' bytes' wk dk.
            DecodeString c' = Inr bytes' \<and> DecodeString (Key (Credential d)) = Inr wk \<and>
            DecryptDataKey E wk = Inr dk \<and>
            ComputeHmac256 E bytes' (drop 32 (Plaintext dk)) \<noteq> Hmac (Credential d) \<longrightarrow>
            GetSecret E (tamper tbl name (Version (Credential d)) ''contents'' c') name version =
              Inl ErrHmacValidationFailed) \<and>
         ErrHmacValidationFailed \<noteq> ErrSecretNotFound"
proof (intro conjI allI impI)
  fix mac'
  assume a: "mac' \<noteq> Hmac (Credential d)"
  obtain it0 where c: "Decode it0 = Inr (Credential d)"
    and g: "GetSecret E (tamper tbl name (Version (Credential d)) ''hmac'' mac') name version =
           (case Decode (AList.update ''hmac'' (S mac') it0) of
              Inl err \<Rightarrow> Inl err
            | Inr cred \<Rightarrow> decryptCredential E cred)"
    by (rule GetSecret_tampered [OF assms, of "''hmac''" mac']) simp_all
  obtain it1 where r: "decryptCredential E (Credential d) = Inr d"
    using GetSecret_reads [OF assms(1)] by metis
  show "GetSecret E (tamper tbl name (Version (Credential d)) ''hmac'' mac') name version =
              Inl ErrHmacValidationFailed"
    by (simp add: g Decode_update_hmac [OF c] decryptCredential_forged_tag [OF r a])
next
  fix c' err
  assume a: "DecodeString c' = Inl err"
  obtain it0 where c: "Decode it0 = Inr (Credential d)"
    and g: "GetSecret E (tamper tbl name (Version (Credential d)) ''contents'' c') name version =
           (case Decode (AList.update ''contents'' (S c') it0) of
              Inl err \<Rightarrow> Inl err
            | Inr cred \<Rightarrow> decryptCredential E cred)"
    by (rule GetSecret_tampered [OF assms, of "''contents''" c']) simp_all
  obtain it1 where r: "decryptCredential E (Credential d) = Inr d"
    using GetSecret_reads [OF assms(1)] by metis
  show "GetSecret E (tamper tbl name (Version (Credential d)) ''contents'' c') name version =
              Inl err"
    by (simp add: g Decode_update_contents [OF c] decryptCredential_corrupt_contents [OF r a])
next
  fix c' bytes' wk dk
  assume a: "DecodeString c' = Inr bytes' \<and> DecodeString (Key (Credential d)) = Inr wk \<and>
            DecryptDataKey E wk = Inr dk \<and>
            ComputeHmac256 E bytes' (drop 32 (Plaintext dk)) \<noteq> Hmac (Credential d)"
  obtain it0 where c: "Decode it0 = Inr (Credential d)"
    and g: "GetSecret E (tamper tbl name (Version (Credential d)) ''contents'' c') name version =
           (case Decode (AList.update ''contents'' (S c') it0) of
              Inl err \<Rightarrow> Inl err
            | Inr cred \<Rightarrow> decryptCredential E cred)"
    by (rule GetSecret_tampered [OF assms, of "''contents''" c']) simp_all
  obtain it1 where r: "decryptCredential E (Credential d) = Inr d"
    using GetSecret_reads [OF assms(1)] by metis
  from a have a1: "DecodeString c' = Inr bytes'"
    and a2: "DecodeString (Key (Credential d)) = Inr wk"
    and a3: "DecryptDataKey E wk = Inr dk"
    and a4: "ComputeHmac256 E bytes' (drop 32 (Plaintext dk)) \<noteq> Hmac (Credential d)"
    by simp_all
  show "GetSecret E (tamper tbl name (Version (Credential d)) ''contents'' c') name version =
              Inl ErrHmacValidationFailed"
    by (simp add: g Decode_update_contents [OF c]
        decryptCredential_altered_contents [OF r a1 a2 a3 a4])
next
  show "ErrHmacValidationFailed \<noteq> ErrSecretNotFound" by simp
qed

lemma GetSecret_stub_single:
  "GetSecret stub_env [stub_item ''db'' ''s3cr3t'' ''1''] ''db'' [] =
     Inr \<lparr>Credential = stub_cred ''db'' ''s3cr3t'' ''1'', Secret = ''s3cr3t''\<rparr>"
  by (simp add: GetSecret_def Query_def key_condition_stub_item sort_Sort_def project_def
      Decode_stub_item decryptCredential_stub_cred)

lemma stub_contents: "Contents (stub_cred ''db'' ''s3cr3t'' ''1'') = ''dDNyYzNz''"
  by (simp add: stub_cred_def EncodeToString.simps sextets_def b64_char_def char_of_eq_iff)

lemma DecodeString_bang: "DecodeString ''!DNyYzNz'' = Inl CorruptInputError"
  by (simp add: DecodeString_def b64_index_def)

text \<open>
  The stored ciphertext of the record is \<open>dDNyYzNz\<close>. With its first byte replaced by
  \<open>!\<close>, which is not in the base64 alphabet, \<open>GetSecret\<close> fails with the decoder's
  error, not with \<open>ErrHmacValidationFailed\<close>.
\<close>

theorem GetSecret_altered_ciphertext_not_base64:
  "GetSecret stub_env [stub_item ''db'' ''s3cr3t'' ''1''] ''db'' [] =
     Inr \<lparr>Credential = stub_cred ''db'' ''s3cr3t'' ''1'', Secret = ''s3cr3t''\<rparr> \<and>
   Contents (stub_cred ''db'' ''s3cr3t'' ''1'') = ''dDNyYzNz'' \<and>
   GetSecret stub_env
     (tamper [stub_item ''db'' ''s3cr3t'' ''1''] ''db'' ''1'' ''contents'' ''!DNyYzNz'')
     ''db'' [] = Inl CorruptInputError \<and>
   CorruptInputError \<noteq> ErrHmacValidationFailed"
proof -
  let ?c = "stub_cred ''db'' ''s3cr3t'' ''1''"
  have t: "tamper [stub_item ''db'' ''s3cr3t'' ''1''] ''db'' ''1'' ''contents'' ''!DNyYzNz'' =
           [AList.update ''contents'' (S ''!DNyYzNz'') (stub_item ''db'' ''s3cr3t'' ''1'')]"
    by (simp add: tamper_def key_of_stub_item)
  have k: "key_condition ''db'' None
             (AList.update ''contents'' (S ''!DNyYzNz'') (stub_item ''db'' ''s3cr3t'' ''1''))"
    by (simp add: update_keeps_key(3) key_condition_stub_item)
  have d: "Decode (AList.update ''contents'' (S ''!DNyYzNz'') (stub_item ''db'' ''s3cr3t'' ''1''))
             = Inr (?c\<lparr>Contents := ''!DNyYzNz''\<rparr>)"
    by (rule Decode_update_contents [OF Decode_stub_item])
  have r: "decryptCredential stub_env (?c\<lparr>Contents := ''!DNyYzNz''\<rparr>) = Inl CorruptInputError"
    by (rule decryptCredential_corrupt_contents [OF decryptCredential_stub_cred DecodeString_bang])
  have g: "GetSecret stub_env
     (tamper [stub_item ''db'' ''s3cr3t'' ''1''] ''db'' ''1'' ''contents'' ''!DNyYzNz'')
     ''db'' [] = Inl CorruptInputError"
    unfolding t by (simp add: GetSecret_def Query_def k sort_Sort_def project_def d r)
  have n: "CorruptInputError \<noteq> ErrHmacValidationFailed" by simp
  show ?thesis
    by (intro conjI GetSecret_stub_single stub_contents g n)
qed

theorem GetSecret_altered_record_witness:
  "GetSecret stub_env [stub_item ''db'' ''s3cr3t'' ''1''] ''db'' [] =
     Inr \<lparr>Credential = stub_cred ''db'' ''s3cr3t'' ''1'', Secret = ''s3cr3t''\<rparr> \<and>
   list_all has_key_schema [stub_item ''db'' ''s3cr3t'' ''1''] \<and>
   ''forged'' \<noteq> Hmac (stub_cred ''db'' ''s3cr3t'' ''1'') \<and>
   GetSecret stub_env (tamper [stub_item ''db'' ''s3cr3t'' ''1''] ''db'' ''1'' ''hmac'' ''forged'')
     ''db'' [] = Inl ErrHmacValidationFailed \<and>
   DecodeString ''!DNyYzNz'' = Inl CorruptInputError \<and>
   GetSecret stub_env
     (tamper [stub_item ''db'' ''s3cr3t'' ''1''] ''db'' ''1'' ''contents'' ''!DNyYzNz'')
     ''db'' [] = Inl CorruptInputError \<and>
   DecodeString (EncodeToString ''t3rc3S'') = Inr ''t3rc3S'' \<and>
   DecodeString (Key (stub_cred ''db'' ''s3cr3t'' ''1'')) = Inr (CiphertextBlob stub_key) \<and>
   DecryptDataKey stub_env (CiphertextBlob stub_key) = Inr stub_key \<and>
   ComputeHmac256 stub_env ''t3rc3S'' (drop 32 (Plaintext stub_key)) \<noteq>
     Hmac (stub_cred ''db'' ''s3cr3t'' ''1'') \<and>
   GetSecret stub_env
     (tamper [stub_item ''db'' ''s3cr3t'' ''1''] ''db'' ''1'' ''contents''
        (EncodeToString ''t3rc3S''))
     ''db'' [] = Inl ErrHmacValidationFailed"
proof -
  let ?c = "stub_cred ''db'' ''s3cr3t'' ''1''"
  let ?d = "\<lparr>Credential = ?c, Secret = ''s3cr3t''\<rparr>"
  have v: "Version (Credential ?d) = ''1''" by (simp add: stub_cred_sel)
  have h1: "GetSecret stub_env [stub_item ''db'' ''s3cr3t'' ''1''] ''db'' [] = Inr ?d"
    by (rule GetSecret_stub_single)
  have h2: "list_all has_key_schema [stub_item ''db'' ''s3cr3t'' ''1'']"
    by (simp add: has_key_schema_stub_item)
  note t = GetSecret_altered_record [OF h1 h2]
  have m: "''forged'' \<noteq> Hmac ?c" by (simp add: stub_cred_def)
  have b: "DecodeString ''!DNyYzNz'' = Inl CorruptInputError" by (rule DecodeString_bang)
  have e1: "DecodeString (EncodeToString ''t3rc3S'') = Inr ''t3rc3S''"
    by (rule DecodeString_EncodeToString)
  have e2: "DecodeString (Key ?c) = Inr (CiphertextBlob stub_key)"
    by (simp add: stub_cred_def DecodeString_EncodeToString)
  have e3: "DecryptDataKey stub_env (CiphertextBlob stub_key) = Inr stub_key"
    by (simp add: stub_env_def stub_blob_not_denied)
  have e4: "ComputeHmac256 stub_env ''t3rc3S'' (drop 32 (Plaintext stub_key)) \<noteq> Hmac ?c"
    by (simp add: stub_env_def stub_cred_def stub_key_facts)
  have r1: "GetSecret stub_env
      (tamper [stub_item ''db'' ''s3cr3t'' ''1''] ''db'' ''1'' ''hmac'' ''forged'')
      ''db'' [] = Inl ErrHmacValidationFailed"
    using t [THEN conjunct1, rule_format, of "''forged''"] m by (simp add: stub_cred_sel)
  have r2: "GetSecret stub_env
      (tamper [stub_item ''db'' ''s3cr3t'' ''1''] ''db'' ''1'' ''contents'' ''!DNyYzNz'')
      ''db'' [] = Inl CorruptInputError"
    using t [THEN conjunct2, THEN conjunct1, rule_format, OF b] by (simp add: stub_cred_sel)
  have r3: "GetSecret stub_env
      (tamper [stub_item ''db'' ''s3cr3t'' ''1''] ''db'' ''1'' ''contents''
         (EncodeToString ''t3rc3S''))
      ''db'' [] = Inl ErrHmacValidationFailed"
    using t [THEN conjunct2, THEN conjunct2, THEN conjunct1, rule_format,
          of "EncodeToString ''t3rc3S''" "''t3rc3S''" "CiphertextBlob stub_key" stub_key]
      e1 e2 e3 e4
    by (simp add: stub_cred_sel)
  show ?thesis
    by (intro conjI h1 h2 m r1 b r2 e1 e2 e3 e4 r3)
qed

text \<open>
  An alteration that the read does not see: the stored ciphertext of the secret \<open>s3cr3\<close>
  is \<open>M3JjM3M=\<close>, and \<open>M3JjM3N=\<close> differs from it only in the two low bits of the last
  character before the padding, which the decoder drops. Both decode to the same bytes,
  the tag is the stored one, and \<open>GetSecret\<close> returns the secret.
\<close>

lemma stub_contents_padded: "Contents (stub_cred ''db'' ''s3cr3'' ''1'') = ''M3JjM3M=''"
  by (simp add: stub_cred_def EncodeToString.simps sextets_def b64_char_def char_of_eq_iff)

lemma DecodeString_trailing_bits: "DecodeString ''M3JjM3N='' = Inr ''3rc3s''"
  by (simp add: DecodeString_def b64_index_def octet1_def octet2_def octet3_def char_of_eq_iff)

lemma GetSecret_altered_trailing_bits:
  "GetSecret stub_env
     (tamper [stub_item ''db'' ''s3cr3'' ''1''] ''db'' ''1'' ''contents'' ''M3JjM3N='')
     ''db'' [] =
   Inr \<lparr>Credential = (stub_cred ''db'' ''s3cr3'' ''1'')\<lparr>Contents := ''M3JjM3N=''\<rparr>,
        Secret = ''s3cr3''\<rparr>"
proof -
  let ?c = "stub_cred ''db'' ''s3cr3'' ''1''"
  let ?it = "AList.update ''contents'' (S ''M3JjM3N='') (stub_item ''db'' ''s3cr3'' ''1'')"
  have t: "tamper [stub_item ''db'' ''s3cr3'' ''1''] ''db'' ''1'' ''contents'' ''M3JjM3N='' = [?it]"
    by (simp add: tamper_def key_of_stub_item)
  have k: "key_condition ''db'' None ?it"
    by (simp add: update_keeps_key(3) key_condition_stub_item)
  have d: "Decode ?it = Inr (?c\<lparr>Contents := ''M3JjM3N=''\<rparr>)"
    by (rule Decode_update_contents [OF Decode_stub_item])
  have r: "decryptCredential stub_env (?c\<lparr>Contents := ''M3JjM3N=''\<rparr>) =
             Inr \<lparr>Credential = ?c\<lparr>Contents := ''M3JjM3N=''\<rparr>, Secret = ''s3cr3''\<rparr>"
    by (simp add: decryptCredential_def stub_cred_def DecodeString_EncodeToString
        DecodeString_trailing_bits stub_env_def stub_key_facts stub_blob_not_denied)
  show ?thesis
    unfolding t by (simp add: GetSecret_def Query_def k sort_Sort_def project_def d r)
qed

end
